theory Spec2Isabelle
  imports Main
begin

section \<open>The compliance-record dialog of \<^verbatim>\<open>AddComplianceDialog\<close>\<close>

text \<open>
  The component \<^verbatim>\<open>AddComplianceDialog\<close> keeps its form in React state, talks to the
  backend client (object storage and the relational store) and reports through toasts and
  the callbacks of its parent. The embedding makes each of these explicit:
  \<^item> the React state of the component is the record \<open>form\<close>; a handler takes the state of
    the render it closes over and returns the state after its setters have run;
  \<^item> every call of the backend client, of the console, of the toast display and of the
    parent's callbacks is an \<open>event\<close>; a handler returns the list of its events in program
    order, a backend call together with the answer it got;
  \<^item> what the backend answers, what \<^verbatim>\<open>Date.now()\<close> and \<^verbatim>\<open>Math.random()\<close> return is not
    decided by the component: it is read from the record \<open>env\<close>, and every theorem holds for
    all environments;
  \<^item> a \<^verbatim>\<open>throw\<close> or a rejected promise is the left injection of a sum; \<^verbatim>\<open>try/catch/finally\<close>
    is a case distinction on it.
\<close>

subsection \<open>JavaScript values and string helpers\<close>

text \<open>What a \<^verbatim>\<open>catch\<close> clause can receive: an \<^verbatim>\<open>Error\<close> object with its message, or
  any other value (for which \<^verbatim>\<open>instanceof Error\<close> is false).\<close>

datatype js_thrown = JsError string | JsOther

text \<open>A nullable string of the source (\<^verbatim>\<open>string | null | undefined\<close>) is a \<open>string option\<close>.
  It is truthy when it is present and not the empty string.\<close>

definition truthy :: "string option \<Rightarrow> bool" where
  "truthy s = (case s of None \<Rightarrow> False | Some x \<Rightarrow> x \<noteq> [])"

text \<open>\<^verbatim>\<open>a || b\<close> on nullable strings.\<close>

definition js_or :: "string option \<Rightarrow> string option \<Rightarrow> string option" where
  "js_or a b = (if truthy a then a else b)"

text \<open>\<^verbatim>\<open>s.split(c)\<close> for a separator of one character: the pieces between the
  occurrences of \<open>c\<close>; never the empty array.\<close>

fun split_char :: "char \<Rightarrow> string \<Rightarrow> string list" where
  "split_char c [] = [[]]"
| "split_char c (x # xs) =
     (if x = c then [] # split_char c xs
      else (case split_char c xs of
              [] \<Rightarrow> [[x]]
            | p # ps \<Rightarrow> (x # p) # ps))"

text \<open>\<^verbatim>\<open>xs.pop()\<close> as a value: the last element, \<^verbatim>\<open>undefined\<close> on the empty array.\<close>

definition pop :: "'a list \<Rightarrow> 'a option" where
  "pop xs = (case xs of [] \<Rightarrow> None | _ \<Rightarrow> Some (last xs))"

text \<open>\<^verbatim>\<open>xs[0]\<close> as a value.\<close>

definition first_elem :: "'a list \<Rightarrow> 'a option" where
  "first_elem xs = (case xs of [] \<Rightarrow> None | x # _ \<Rightarrow> Some x)"

text \<open>A nullable string inside a template literal.\<close>

definition template :: "string option \<Rightarrow> string" where
  "template s = (case s of None \<Rightarrow> ''undefined'' | Some x \<Rightarrow> x)"

text \<open>\<^verbatim>\<open>xs.join(sep)\<close>.\<close>

fun join :: "string \<Rightarrow> string list \<Rightarrow> string" where
  "join sep [] = []"
| "join sep [x] = x"
| "join sep (x # y # ys) = x @ sep @ join sep (y # ys)"

text \<open>\<^verbatim>\<open>s.substr(start, len)\<close> for a start and a length that are not negative.\<close>

definition substr :: "nat \<Rightarrow> nat \<Rightarrow> string \<Rightarrow> string" where
  "substr start len s = take len (drop start s)"

text \<open>The decimal rendering of a non-negative integer, as a template literal prints it;
  \<open>digit_char\<close> is only applied to a number below ten.\<close>

definition digit_char :: "nat \<Rightarrow> char" where
  "digit_char d = ''0123456789'' ! d"

fun show_nat :: "nat \<Rightarrow> string" where
  "show_nat n = (if n < 10 then [digit_char n] else show_nat (n div 10) @ [digit_char (n mod 10)])"

declare show_nat.simps [simp del]

text \<open>Left padding with zeros to a width, as \<^verbatim>\<open>toISOString\<close> does for each field.\<close>

definition pad0 :: "nat \<Rightarrow> string \<Rightarrow> string" where
  "pad0 w s = replicate (w - length s) (CHR ''0'') @ s"

subsection \<open>Dates\<close>

text \<open>
  A \<^verbatim>\<open>Date\<close> is either the invalid date (time value \<^verbatim>\<open>NaN\<close>) or a time value, which is
  modelled by its calendar fields in UTC: these are what \<^verbatim>\<open>toISOString\<close> prints. The month
  is counted from 1, as printed.
\<close>

record utc_fields =
  utc_year :: int
  utc_month :: nat
  utc_day :: nat
  utc_hours :: nat
  utc_minutes :: nat
  utc_seconds :: nat
  utc_millis :: nat

datatype js_date = InvalidDate | DateUTC utc_fields

text \<open>The year of \<^verbatim>\<open>toISOString\<close>: four digits for the years 0 to 9999, otherwise a sign
  and six digits.\<close>

definition iso_year :: "int \<Rightarrow> string" where
  "iso_year y =
     (if 0 \<le> y \<and> y \<le> 9999 then pad0 4 (show_nat (nat y))
      else (if y < 0 then ''-'' else ''+'') @ pad0 6 (show_nat (nat \<bar>y\<bar>)))"

text \<open>The calendar date part \<^verbatim>\<open>YYYY-MM-DD\<close> and the time part \<^verbatim>\<open>HH:mm:ss.sssZ\<close>.\<close>

definition iso_date :: "utc_fields \<Rightarrow> string" where
  "iso_date u =
     iso_year (utc_year u) @ ''-'' @ pad0 2 (show_nat (utc_month u)) @ ''-'' @
     pad0 2 (show_nat (utc_day u))"

definition iso_time :: "utc_fields \<Rightarrow> string" where
  "iso_time u =
     pad0 2 (show_nat (utc_hours u)) @ '':'' @ pad0 2 (show_nat (utc_minutes u)) @ '':'' @
     pad0 2 (show_nat (utc_seconds u)) @ ''.'' @ pad0 3 (show_nat (utc_millis u)) @ ''Z''"

text \<open>\<^verbatim>\<open>d.toISOString()\<close>: a \<^verbatim>\<open>RangeError\<close> on the invalid date (its message is the
  engine's; no property below depends on it).\<close>

definition toISOString :: "js_date \<Rightarrow> js_thrown + string" where
  "toISOString d =
     (case d of
        InvalidDate \<Rightarrow> Inl (JsError ''Invalid time value'')
      | DateUTC u \<Rightarrow> Inr (iso_date u @ ''T'' @ iso_time u))"

subsection \<open>Data of the component\<close>

text \<open>A file handle of the file picker.\<close>

record js_file =
  name :: string
  file_bytes :: "nat list"

text \<open>The caller identity \<^verbatim>\<open>organisationMember\<close> of the session provider
  (\<^verbatim>\<open>useAuth\<close>, whose declaration is not among the sources); the hook may also return none
  at all, and the fields the component reads with \<^verbatim>\<open>||\<close> or \<^verbatim>\<open>!\<close> may be null.\<close>

record member =
  organisation_id :: "string option"
  full_name :: "string option"
  email :: "string option"
  role :: string

text \<open>A row of the team roster (\<^verbatim>\<open>useTeamMembers\<close>).\<close>

record team_member =
  tm_id :: string
  tm_full_name :: "string option"
  tm_email :: string
  tm_role :: string

text \<open>A row of the table \<^verbatim>\<open>standards\<close>.\<close>

record standard =
  std_id :: string
  std_clause :: string
  std_description :: string

text \<open>The object handed to \<^verbatim>\<open>insert\<close>. Its fields are the columns of the source with the
  prefix \<open>rec_\<close>, since \<^verbatim>\<open>organisation_id\<close> also names a field of the caller identity.\<close>

record compliance_record =
  rec_compliance_item :: string
  rec_standard_clause :: string
  rec_compliance_status :: string
  rec_responsible_person :: string
  rec_next_review_date :: "string option"
  rec_notes :: "string option"
  rec_organisation_id :: string
  rec_file_name :: "string option"
  rec_file_path :: "string option"

text \<open>The React state of the dialog (the \<^verbatim>\<open>useState\<close> variables); \<open>notes_field\<close> is the
  variable \<^verbatim>\<open>notes\<close>, a reserved word here.\<close>

record form =
  complianceItem :: string
  standardClause :: string
  complianceStatus :: string
  responsiblePerson :: string
  nextReviewDate :: "js_date option"
  notes_field :: string
  files :: "js_file list"
  loading :: bool
  standards :: "standard list"
  standardsLoading :: bool

subsection \<open>Events and the environment\<close>

datatype toast_variant = Default | Destructive

record bucket_options =
  public :: bool
  allowedMimeTypes :: "string list"

record upload_options =
  cacheControl :: string
  upsert :: bool

text \<open>
  The answers of the backend client. A storage or database call either rejects (\<open>Inl\<close>) or
  resolves (\<open>Inr\<close>) with the \<^verbatim>\<open>error\<close> field the handler looks at: none on success, for
  upload and insert the error's \<^verbatim>\<open>message\<close>. \<^verbatim>\<open>listBuckets\<close> resolves with its
  \<^verbatim>\<open>data\<close>, the bucket names or null, and its \<^verbatim>\<open>error\<close>, which the handler does not
  read: \<^verbatim>\<open>const { data: buckets } = await supabase.storage.listBuckets()\<close>.
\<close>

type_synonym list_result = "js_thrown + (string list option \<times> js_thrown option)"
type_synonym create_result = "js_thrown + js_thrown option"
type_synonym call_result = "js_thrown + string option"
type_synonym select_result = "js_thrown + (js_thrown option \<times> standard list option)"

text \<open>
  What a handler does to the outside, in program order. A toast has its title, its
  description and its variant, \<open>Default\<close> when the call names none. A backend call has its
  arguments (for an upload: bucket, path, file, options) and, last, the answer it got.
  \<open>Remove\<close> is the storage client's call that deletes objects of a bucket; it is listed so
  that a trace can be said to contain none. The payload of a \<^verbatim>\<open>console.log\<close> is not
  modelled, only its label.
\<close>

datatype event =
    PreventDefault
  | ConsoleLog string
  | ConsoleError string js_thrown
  | Toast string string toast_variant
  | ListBuckets list_result
  | CreateBucket string bucket_options create_result
  | Upload string string js_file upload_options call_result
  | Remove string "string list"
  | InsertRecord compliance_record call_result
  | SelectStandards string select_result
  | OnSuccess
  | OnOpenChange bool

text \<open>
  The environment of one run of a handler. \<open>dateNow i\<close> and \<open>mathRandom i\<close> are what
  \<^verbatim>\<open>Date.now()\<close> and \<^verbatim>\<open>Math.random().toString(36)\<close> give in the \<open>i\<close>-th iteration of the
  upload loop (counted from 0); \<open>upload i path f\<close> is the answer to the upload of that
  iteration.
\<close>

record env =
  listBuckets :: list_result
  createBucket :: create_result
  dateNow :: "nat \<Rightarrow> nat"
  mathRandom :: "nat \<Rightarrow> string"
  upload :: "nat \<Rightarrow> string \<Rightarrow> js_file \<Rightarrow> call_result"
  insert_row :: "compliance_record \<Rightarrow> call_result"
  selectStandards :: "string \<Rightarrow> select_result"

subsection \<open>Values derived in every render\<close>

text \<open>\<^verbatim>\<open>organisationMember?.organisation_id\<close>: none when there is no caller identity.\<close>

definition member_organisation_id :: "member option \<Rightarrow> string option" where
  "member_organisation_id om = (case om of None \<Rightarrow> None | Some m \<Rightarrow> organisation_id m)"

text \<open>\<^verbatim>\<open>const isAdmin = organisationMember?.role === 'admin'\<close>\<close>

definition isAdmin :: "member option \<Rightarrow> bool" where
  "isAdmin om = (case om of None \<Rightarrow> False | Some m \<Rightarrow> role m = ''admin'')"

text \<open>\<^verbatim>\<open>const memberName = organisationMember?.full_name || organisationMember?.email || ''\<close>\<close>

definition memberName :: "member option \<Rightarrow> string" where
  "memberName om =
     (case om of
        None \<Rightarrow> []
      | Some m \<Rightarrow> (case js_or (js_or (full_name m) (email m)) (Some []) of
                    None \<Rightarrow> []
                  | Some x \<Rightarrow> x))"

subsection \<open>\<^verbatim>\<open>fetchStandards\<close> and the effect that calls it\<close>

definition fetchStandards :: "env \<Rightarrow> member option \<Rightarrow> form \<Rightarrow> form \<times> event list" where
  "fetchStandards e om f =
     (case member_organisation_id om of
        None \<Rightarrow> (f, [])
      | Some org \<Rightarrow>
          if org = [] then (f, [])
          else
            (case selectStandards e org of
               Inl ex \<Rightarrow>
                 (f\<lparr>standardsLoading := False\<rparr>,
                  [SelectStandards org (Inl ex),
                   ConsoleError ''Error fetching standards:'' ex,
                   Toast ''Error'' ''Failed to fetch standards'' Destructive])
             | Inr (Some err, d) \<Rightarrow>
                 (f\<lparr>standardsLoading := False\<rparr>,
                  [SelectStandards org (Inr (Some err, d)),
                   ConsoleError ''Error fetching standards:'' err,
                   Toast ''Error'' ''Failed to fetch standards'' Destructive])
             | Inr (None, d) \<Rightarrow>
                 (f\<lparr>standards := (case d of None \<Rightarrow> [] | Some rows \<Rightarrow> rows),
                    standardsLoading := False\<rparr>,
                  [SelectStandards org (Inr (None, d))])))"

text \<open>The effect on \<^verbatim>\<open>[open, organisationMember?.organisation_id]\<close>.\<close>

definition openEffect :: "env \<Rightarrow> bool \<Rightarrow> member option \<Rightarrow> form \<Rightarrow> form \<times> event list" where
  "openEffect e opened om f =
     (if opened \<and> truthy (member_organisation_id om) then fetchStandards e om f else (f, []))"

subsection \<open>\<^verbatim>\<open>createStorageBucket\<close>\<close>

definition evidence_bucket :: string where
  "evidence_bucket = ''compliance-evidence''"

definition evidence_bucket_options :: bucket_options where
  "evidence_bucket_options =
     \<lparr>public = True,
      allowedMimeTypes =
        [''image/*'', ''application/pdf'', ''application/msword'',
         ''application/vnd.openxmlformats-officedocument.wordprocessingml.document'']\<rparr>"

text \<open>The \<^verbatim>\<open>try\<close> block: what it throws, if anything, and its events.
  \<^verbatim>\<open>buckets?.some(...)\<close> is undefined, hence falsy, when \<^verbatim>\<open>buckets\<close> is null. The
  error of the answer is bound to nothing: \<open>listError\<close> only reappears in the event.\<close>

definition createStorageBucket_try :: "env \<Rightarrow> js_thrown option \<times> event list" where
  "createStorageBucket_try e =
     (case listBuckets e of
        Inl ex \<Rightarrow> (Some ex, [ListBuckets (Inl ex)])
      | Inr (buckets, listError) \<Rightarrow>
          (let bucketExists =
                 (case buckets of None \<Rightarrow> False | Some bs \<Rightarrow> evidence_bucket \<in> set bs)
           in if \<not> bucketExists then
                (case createBucket e of
                   Inl ex \<Rightarrow>
                     (Some ex,
                      [ListBuckets (Inr (buckets, listError)),
                       ConsoleLog ''Creating compliance-evidence bucket...'',
                       CreateBucket evidence_bucket evidence_bucket_options (Inl ex)])
                 | Inr (Some err) \<Rightarrow>
                     (Some err,
                      [ListBuckets (Inr (buckets, listError)),
                       ConsoleLog ''Creating compliance-evidence bucket...'',
                       CreateBucket evidence_bucket evidence_bucket_options (Inr (Some err)),
                       ConsoleError ''Error creating bucket:'' err])
                 | Inr None \<Rightarrow>
                     (None,
                      [ListBuckets (Inr (buckets, listError)),
                       ConsoleLog ''Creating compliance-evidence bucket...'',
                       CreateBucket evidence_bucket evidence_bucket_options (Inr None),
                       ConsoleLog ''Bucket created successfully'']))
              else (None, [ListBuckets (Inr (buckets, listError))])))"

text \<open>With its \<^verbatim>\<open>catch\<close>, which logs and does not rethrow: the function only has events.\<close>

definition createStorageBucket :: "env \<Rightarrow> event list" where
  "createStorageBucket e =
     (case createStorageBucket_try e of
        (Some ex, evs) \<Rightarrow> evs @ [ConsoleError ''Error with storage bucket:'' ex]
      | (None, evs) \<Rightarrow> evs)"

subsection \<open>The upload loop of \<^verbatim>\<open>handleSubmit\<close>\<close>

text \<open>\<^verbatim>\<open>const fileExt = file.name.split('.').pop()\<close>, as the template literal prints it.\<close>

definition fileExt :: "js_file \<Rightarrow> string" where
  "fileExt file = template (pop (split_char (CHR ''.'') (name file)))"

text \<open>The storage key of the \<open>i\<close>-th iteration:
  \<^verbatim>\<open>`${Date.now()}_${Math.random().toString(36).substr(2, 9)}.${fileExt}`\<close> under
  \<^verbatim>\<open>`${organisationMember.organisation_id}/`\<close>.\<close>

definition fileName :: "env \<Rightarrow> nat \<Rightarrow> js_file \<Rightarrow> string" where
  "fileName e i file =
     show_nat (dateNow e i) @ ''_'' @ substr 2 9 (mathRandom e i) @ ''.'' @ fileExt file"

definition filePath :: "env \<Rightarrow> string \<Rightarrow> nat \<Rightarrow> js_file \<Rightarrow> string" where
  "filePath e org i file = org @ ''/'' @ fileName e i file"

definition evidence_upload_options :: upload_options where
  "evidence_upload_options = \<lparr>cacheControl = ''3600'', upsert = False\<rparr>"

text \<open>
  The body of the \<^verbatim>\<open>for (const file of files)\<close> loop up to the two \<^verbatim>\<open>push\<close> calls, in
  iteration \<open>i\<close>: what it throws, if anything, and its events. A rejected upload throws what
  it was rejected with; an upload answered with an error throws
  \<^verbatim>\<open>new Error(`Failed to upload file ${file.name}: ${uploadError.message}`)\<close>.
\<close>

definition uploadOne :: "env \<Rightarrow> string \<Rightarrow> nat \<Rightarrow> js_file \<Rightarrow> js_thrown option \<times> event list" where
  "uploadOne e org i fl =
     (let path = filePath e org i fl
      in case upload e i path fl of
           Inl ex \<Rightarrow>
             (Some ex,
              [ConsoleLog ''Uploading file to path:'',
               Upload evidence_bucket path fl evidence_upload_options (Inl ex)])
         | Inr (Some msg) \<Rightarrow>
             (Some (JsError (''Failed to upload file '' @ name fl @ '': '' @ msg)),
              [ConsoleLog ''Uploading file to path:'',
               Upload evidence_bucket path fl evidence_upload_options (Inr (Some msg)),
               ConsoleError ''Upload error:'' (JsError msg)])
         | Inr None \<Rightarrow>
             (None,
              [ConsoleLog ''Uploading file to path:'',
               Upload evidence_bucket path fl evidence_upload_options (Inr None),
               ConsoleLog ''Upload successful:'']))"

text \<open>
  The loop from its \<open>i\<close>-th iteration on, with the arrays \<^verbatim>\<open>fileNames\<close> and
  \<^verbatim>\<open>filePaths\<close> as they stand. It ends with the two arrays, or with what was thrown; the
  second component lists the events.
\<close>

fun uploadFiles ::
  "env \<Rightarrow> string \<Rightarrow> nat \<Rightarrow> js_file list \<Rightarrow> string list \<Rightarrow> string list \<Rightarrow>
   (js_thrown + string list \<times> string list) \<times> event list" where
  "uploadFiles e org i [] fileNames filePaths = (Inr (fileNames, filePaths), [])"
| "uploadFiles e org i (fl # rest) fileNames filePaths =
     (case uploadOne e org i fl of
        (Some ex, evs) \<Rightarrow> (Inl ex, evs)
      | (None, evs) \<Rightarrow>
          (case uploadFiles e org (Suc i) rest
                  (fileNames @ [name fl]) (filePaths @ [filePath e org i fl]) of
             (r, evs') \<Rightarrow> (r, evs @ evs')))"

text \<open>\<^verbatim>\<open>if (files.length > 0) { ... }\<close>\<close>

definition uploadStep ::
  "env \<Rightarrow> string \<Rightarrow> js_file list \<Rightarrow> (js_thrown + string list \<times> string list) \<times> event list" where
  "uploadStep e org fs =
     (if length fs > 0 then
        (case uploadFiles e org 0 fs [] [] of
           (r, evs) \<Rightarrow> (r, ConsoleLog ''Uploading files:'' # evs))
      else (Inr ([], []), []))"

subsection \<open>\<^verbatim>\<open>resetForm\<close> and \<^verbatim>\<open>handleSubmit\<close>\<close>

definition resetForm :: "form \<Rightarrow> form" where
  "resetForm f =
     f\<lparr>complianceItem := [], standardClause := [], complianceStatus := [],
       responsiblePerson := [], nextReviewDate := None, notes_field := [], files := []\<rparr>"

text \<open>\<^verbatim>\<open>nextReviewDate?.toISOString().split('T')[0] || null\<close>\<close>

definition nextReviewDateValue :: "js_date option \<Rightarrow> js_thrown + string option" where
  "nextReviewDateValue picked =
     (case picked of
        None \<Rightarrow> Inr None
      | Some d \<Rightarrow>
          (case toISOString d of
             Inl ex \<Rightarrow> Inl ex
           | Inr s \<Rightarrow> Inr (js_or (first_elem (split_char (CHR ''T'') s)) None)))"

text \<open>The description of the success toast:
  \<^verbatim>\<open>`Compliance record added successfully${files.length > 0 ? ` with ${files.length} file(s)` : ''}`\<close>\<close>

definition successDescription :: "js_file list \<Rightarrow> string" where
  "successDescription fs =
     ''Compliance record added successfully'' @
     (if length fs > 0 then '' with '' @ show_nat (length fs) @ '' file(s)'' else [])"

text \<open>The description of the error toast:
  \<^verbatim>\<open>error instanceof Error ? error.message : "Failed to add compliance record"\<close>\<close>

definition errorDescription :: "js_thrown \<Rightarrow> string" where
  "errorDescription ex =
     (case ex of JsError msg \<Rightarrow> msg | JsOther \<Rightarrow> ''Failed to add compliance record'')"

text \<open>\<^verbatim>\<open>const finalResponsiblePerson = isAdmin ? responsiblePerson : memberName\<close>\<close>

definition finalResponsiblePerson :: "member option \<Rightarrow> form \<Rightarrow> string" where
  "finalResponsiblePerson om f = (if isAdmin om then responsiblePerson f else memberName om)"

text \<open>The object literal handed to \<^verbatim>\<open>insert\<close>, from the organisation, the state, the
  formatted review date and the two arrays of the upload loop.\<close>

definition newRecord ::
  "string \<Rightarrow> member option \<Rightarrow> form \<Rightarrow> string option \<Rightarrow> string list \<Rightarrow> string list \<Rightarrow>
   compliance_record" where
  "newRecord org om f date fileNames filePaths =
     \<lparr>rec_compliance_item = complianceItem f,
      rec_standard_clause = standardClause f,
      rec_compliance_status = complianceStatus f,
      rec_responsible_person = finalResponsiblePerson om f,
      rec_next_review_date = date,
      rec_notes = js_or (Some (notes_field f)) None,
      rec_organisation_id = org,
      rec_file_name = (if length fileNames > 0 then Some (join '', '' fileNames) else None),
      rec_file_path = (if length filePaths > 0 then Some (join '', '' filePaths) else None)\<rparr>"

text \<open>
  The insert and what follows it in the \<^verbatim>\<open>try\<close> block: what is thrown, if anything, the
  state the setters leave, and the events. The callbacks \<^verbatim>\<open>onSuccess\<close> and
  \<^verbatim>\<open>onOpenChange\<close> belong to the parent and are taken to return normally.
\<close>

definition insertStep ::
  "env \<Rightarrow> form \<Rightarrow> compliance_record \<Rightarrow> js_thrown option \<times> form \<times> event list" where
  "insertStep e f row =
     (case insert_row e row of
        Inl ex \<Rightarrow> (Some ex, f, [InsertRecord row (Inl ex)])
      | Inr (Some msg) \<Rightarrow>
          (Some (JsError (''Database error: '' @ msg)), f,
           [InsertRecord row (Inr (Some msg)),
            ConsoleError ''Database error:'' (JsError msg)])
      | Inr None \<Rightarrow>
          (None, resetForm f,
           [InsertRecord row (Inr None),
            ConsoleLog ''Record inserted successfully:'',
            Toast ''Success'' (successDescription (files f)) Default,
            OnSuccess,
            OnOpenChange False]))"

text \<open>
  The \<^verbatim>\<open>try\<close> block of \<^verbatim>\<open>handleSubmit\<close> for the organisation \<open>org\<close> after
  \<^verbatim>\<open>await createStorageBucket()\<close>, in the order of the source: the uploads, the
  responsible person, the insert.
\<close>

definition uploadAndInsert ::
  "env \<Rightarrow> member option \<Rightarrow> string \<Rightarrow> form \<Rightarrow> js_thrown option \<times> form \<times> event list" where
  "uploadAndInsert e om org f =
     (case uploadStep e org (files f) of
        (Inl ex, evs2) \<Rightarrow> (Some ex, f, evs2)
      | (Inr (fileNames, filePaths), evs2) \<Rightarrow>
          if finalResponsiblePerson om f = [] then
            (Some (JsError ''Responsible person is required''), f, evs2)
          else
            (case nextReviewDateValue (nextReviewDate f) of
               Inl ex \<Rightarrow>
                 (Some ex, f, evs2 @ [ConsoleLog ''Inserting compliance record with files:''])
             | Inr date \<Rightarrow>
                 (case insertStep e f (newRecord org om f date fileNames filePaths) of
                    (thrown, f', evs3) \<Rightarrow>
                      (thrown, f',
                       evs2 @ ConsoleLog ''Inserting compliance record with files:'' # evs3))))"

text \<open>The whole \<^verbatim>\<open>try\<close> block: \<^verbatim>\<open>createStorageBucket\<close> first, which cannot throw.\<close>

definition handleSubmit_try ::
  "env \<Rightarrow> member option \<Rightarrow> string \<Rightarrow> form \<Rightarrow> js_thrown option \<times> form \<times> event list" where
  "handleSubmit_try e om org f =
     (let evs1 = createStorageBucket e
      in case uploadAndInsert e om org f of
           (thrown, f', evs) \<Rightarrow> (thrown, f', evs1 @ evs))"

text \<open>
  \<^verbatim>\<open>handleSubmit\<close>: the guard on the organisation, then the \<^verbatim>\<open>try\<close> block between
  \<^verbatim>\<open>setLoading(true)\<close> and, in \<^verbatim>\<open>finally\<close>, \<^verbatim>\<open>setLoading(false)\<close>; the \<^verbatim>\<open>catch\<close>
  block logs and shows the error toast.
\<close>

definition organisationNotFound :: "form \<Rightarrow> form \<times> event list" where
  "organisationNotFound f =
     (f, [PreventDefault, Toast ''Error'' ''Organisation not found'' Destructive])"

text \<open>The \<^verbatim>\<open>catch\<close> block.\<close>

definition handleSubmit_catch :: "js_thrown \<Rightarrow> event list" where
  "handleSubmit_catch ex =
     [ConsoleError ''Error adding compliance record:'' ex,
      Toast ''Error'' (errorDescription ex) Destructive]"

definition handleSubmit :: "env \<Rightarrow> member option \<Rightarrow> form \<Rightarrow> form \<times> event list" where
  "handleSubmit e om f =
     (case member_organisation_id om of
        None \<Rightarrow> organisationNotFound f
      | Some org \<Rightarrow>
          if org = [] then organisationNotFound f
          else
            (case handleSubmit_try e om org f of
               (Some ex, f', evs) \<Rightarrow>
                 (f'\<lparr>loading := False\<rparr>, PreventDefault # evs @ handleSubmit_catch ex)
             | (None, f', evs) \<Rightarrow> (f'\<lparr>loading := False\<rparr>, PreventDefault # evs)))"

subsection \<open>The controls of the dialog\<close>

text \<open>The close control of the header and the cancel button both have
  \<^verbatim>\<open>onClick={() => onOpenChange(false)}\<close>.\<close>

definition closeClick :: "form \<Rightarrow> form \<times> event list" where
  "closeClick f = (f, [OnOpenChange False])"

definition cancelClick :: "form \<Rightarrow> form \<times> event list" where
  "cancelClick f = (f, [OnOpenChange False])"


text \<open>What is rendered for the responsible person: for an admin a select over the roster
  with its current value and its items (value and label), otherwise a read-only input.\<close>

datatype responsible_control =
    RosterSelect string "(string \<times> string) list"
  | ReadOnlyInput string

definition rosterItem :: "team_member \<Rightarrow> string \<times> string" where
  "rosterItem m =
     (let v = (case js_or (tm_full_name m) (Some (tm_email m)) of None \<Rightarrow> [] | Some x \<Rightarrow> x)
      in (v, v @ '' ('' @ tm_role m @ '')''))"

definition responsibleControl ::
  "member option \<Rightarrow> team_member list \<Rightarrow> form \<Rightarrow> responsible_control" where
  "responsibleControl om teamMembers f =
     (if isAdmin om then RosterSelect (responsiblePerson f) (map rosterItem teamMembers)
      else ReadOnlyInput (memberName om))"

subsection \<open>Reading a trace\<close>

text \<open>The events that are requests to the backend.\<close>

fun is_network :: "event \<Rightarrow> bool" where
  "is_network (ListBuckets _) = True"
| "is_network (CreateBucket _ _ _) = True"
| "is_network (Upload _ _ _ _ _) = True"
| "is_network (Remove _ _) = True"
| "is_network (InsertRecord _ _) = True"
| "is_network (SelectStandards _ _) = True"
| "is_network _ = False"

fun is_provisioning :: "event \<Rightarrow> bool" where
  "is_provisioning (ListBuckets _) = True"
| "is_provisioning (CreateBucket _ _ _) = True"
| "is_provisioning _ = False"

fun is_upload :: "event \<Rightarrow> bool" where
  "is_upload (Upload _ _ _ _ _) = True"
| "is_upload _ = False"

fun is_insert :: "event \<Rightarrow> bool" where
  "is_insert (InsertRecord _ _) = True"
| "is_insert _ = False"

fun is_remove :: "event \<Rightarrow> bool" where
  "is_remove (Remove _ _) = True"
| "is_remove _ = False"

fun is_toast :: "event \<Rightarrow> bool" where
  "is_toast (Toast _ _ _) = True"
| "is_toast _ = False"

text \<open>The rows a trace has persisted: the payloads of the inserts that were answered
  without an error.\<close>

fun persisted :: "event list \<Rightarrow> compliance_record list" where
  "persisted [] = []"
| "persisted (InsertRecord row (Inr None) # evs) = row # persisted evs"
| "persisted (_ # evs) = persisted evs"

text \<open>The objects a trace has put into storage: path and file of the uploads that were
  answered without an error.\<close>

fun stored :: "event list \<Rightarrow> (string \<times> js_file) list" where
  "stored [] = []"
| "stored (Upload b path file opts (Inr None) # evs) = (path, file) # stored evs"
| "stored (_ # evs) = stored evs"

text \<open>The events that only write to the console.\<close>

fun is_console :: "event \<Rightarrow> bool" where
  "is_console (ConsoleLog _) = True"
| "is_console (ConsoleError _ _) = True"
| "is_console _ = False"

text \<open>The storage keys the loop assigns to the files \<open>fs\<close> when it starts at iteration \<open>i\<close>.\<close>

fun assignedPaths :: "env \<Rightarrow> string \<Rightarrow> nat \<Rightarrow> js_file list \<Rightarrow> string list" where
  "assignedPaths e org i [] = []"
| "assignedPaths e org i (fl # rest) = filePath e org i fl # assignedPaths e org (Suc i) rest"


subsection \<open>Reading a joined column\<close>

text \<open>\<open>occurs sep s\<close>: the string \<open>sep\<close> occurs in \<open>s\<close>.\<close>

fun occurs :: "string \<Rightarrow> string \<Rightarrow> bool" where
  "occurs sep [] = (sep = [])"
| "occurs sep (x # xs) = (take (length sep) (x # xs) = sep \<or> occurs sep xs)"

text \<open>
  \<^verbatim>\<open>s.split(sep)\<close> for a separator that is not empty, as a reader of \<^verbatim>\<open>file_name\<close> and
  \<^verbatim>\<open>file_path\<close> takes the entries apart: \<open>split_from sep cur s\<close> scans \<open>s\<close> with the piece
  \<open>cur\<close> read so far and cuts at each occurrence of \<open>sep\<close>, from the left.
\<close>

function split_from :: "string \<Rightarrow> string \<Rightarrow> string \<Rightarrow> string list" where
  "split_from sep cur [] = [cur]"
| "split_from sep cur (x # xs) =
     (if sep \<noteq> [] \<and> take (length sep) (x # xs) = sep
      then cur # split_from sep [] (drop (length sep) (x # xs))
      else split_from sep (cur @ [x]) xs)"
  by pat_completeness auto
termination
  by (relation "measure (\<lambda>(sep, cur, s). length s)") auto

definition js_split :: "string \<Rightarrow> string \<Rightarrow> string list" where
  "js_split sep s = split_from sep [] s"

subsection \<open>A sample session\<close>

text \<open>Concrete inputs on which the handlers are run: two files, a caller who is a plain
  member known by the email only, an admin, a backend that answers every call without an
  error, one whose second upload is refused, one whose second upload is rejected, one whose
  bucket list cannot be fetched, one that answers the bucket list with an error and one that
  refuses to create the bucket; and a file with a comma and a blank in its name.\<close>

definition sample_report :: js_file where
  "sample_report = \<lparr>name = ''report.pdf'', file_bytes = [37, 80, 68, 70]\<rparr>"

definition sample_photo :: js_file where
  "sample_photo = \<lparr>name = ''site.photo.png'', file_bytes = [137, 80, 78, 71]\<rparr>"

definition sample_member :: member where
  "sample_member =
     \<lparr>organisation_id = Some ''org-7'', full_name = None, email = Some ''bo@example.org'',
      role = ''member''\<rparr>"

definition sample_admin :: member where
  "sample_admin =
     \<lparr>organisation_id = Some ''org-7'', full_name = Some ''Ann Lee'',
      email = Some ''ann@example.org'', role = ''admin''\<rparr>"

definition sample_date :: js_date where
  "sample_date =
     DateUTC \<lparr>utc_year = 2025, utc_month = 3, utc_day = 9, utc_hours = 23, utc_minutes = 0,
              utc_seconds = 0, utc_millis = 0\<rparr>"

definition sample_form :: form where
  "sample_form =
     \<lparr>complianceItem = ''Fire drill'', standardClause = ''4.1'',
      complianceStatus = ''Compliant'', responsiblePerson = ''Cy Young'',
      nextReviewDate = Some sample_date, notes_field = [],
      files = [sample_report, sample_photo], loading = False, standards = [],
      standardsLoading = False\<rparr>"

text \<open>The same form with nothing optional: no file, no review date, and with notes.\<close>

definition sample_form_bare :: form where
  "sample_form_bare =
     sample_form\<lparr>nextReviewDate := None, notes_field := ''Annual'', files := []\<rparr>"

definition sample_env :: env where
  "sample_env =
     \<lparr>listBuckets = Inr (Some [], None), createBucket = Inr None,
      dateNow = (\<lambda>i. 1700000000000 + i), mathRandom = (\<lambda>i. ''0.4fzyo82mvyr''),
      upload = (\<lambda>i path fl. Inr None), insert_row = (\<lambda>row. Inr None),
      selectStandards = (\<lambda>org. Inr (None, Some []))\<rparr>"

definition sample_env_refusing :: env where
  "sample_env_refusing =
     sample_env\<lparr>upload := (\<lambda>i path fl. if i = 1 then Inr (Some ''quota exceeded'') else Inr None)\<rparr>"

definition sample_env_offline :: env where
  "sample_env_offline = sample_env\<lparr>listBuckets := Inl (JsError ''Failed to fetch'')\<rparr>"

definition sample_env_denied :: env where
  "sample_env_denied = sample_env\<lparr>createBucket := Inr (Some (JsError ''not allowed''))\<rparr>"

definition sample_env_rejecting :: env where
  "sample_env_rejecting =
     sample_env\<lparr>upload := (\<lambda>i path fl. if i = 1 then Inl (JsError ''Failed to fetch'') else Inr None)\<rparr>"

definition sample_env_list_error :: env where
  "sample_env_list_error =
     sample_env\<lparr>listBuckets := Inr (None, Some (JsError ''permission denied''))\<rparr>"

definition sample_minutes :: js_file where
  "sample_minutes = \<lparr>name = ''a, b.pdf'', file_bytes = [37, 80, 68, 70]\<rparr>"

definition sample_form_comma :: form where
  "sample_form_comma = sample_form\<lparr>files := [sample_minutes]\<rparr>"

definition sample_form_unassigned :: form where
  "sample_form_unassigned = sample_form\<lparr>responsiblePerson := []\<rparr>"

definition sample_row :: compliance_record where
  "sample_row =
     \<lparr>rec_compliance_item = ''Fire drill'', rec_standard_clause = ''4.1'',
      rec_compliance_status = ''Compliant'', rec_responsible_person = ''bo@example.org'',
      rec_next_review_date = Some ''2025-03-09'', rec_notes = None,
      rec_organisation_id = ''org-7'',
      rec_file_name = Some ''report.pdf, site.photo.png'',
      rec_file_path =
        Some ''org-7/1700000000000_4fzyo82mv.pdf, org-7/1700000000001_4fzyo82mv.png''\<rparr>"

definition sample_row_bare :: compliance_record where
  "sample_row_bare =
     sample_row\<lparr>rec_next_review_date := None, rec_notes := Some ''Annual'',
       rec_file_name := None, rec_file_path := None\<rparr>"

definition sample_row_comma :: compliance_record where
  "sample_row_comma =
     sample_row\<lparr>rec_file_name := Some ''a, b.pdf'',
       rec_file_path := Some ''org-7/1700000000000_4fzyo82mv.pdf''\<rparr>"

subsection \<open>ISO calendar dates\<close>

text \<open>
  A recogniser for the calendar dates of ISO 8601 in the extended format, as
  \<^verbatim>\<open>toISOString\<close> writes them: \<^verbatim>\<open>YYYY-MM-DD\<close>, or \<^verbatim>\<open>+YYYYYY-MM-DD\<close> and
  \<^verbatim>\<open>-YYYYYY-MM-DD\<close> with the expanded year, the month between 01 and 12 and the day between
  01 and 31. Nothing may follow the day, so the string has no time component.
\<close>

definition is_digit :: "char \<Rightarrow> bool" where
  "is_digit c = (c \<in> set ''0123456789'')"

definition digit_value :: "char \<Rightarrow> nat" where
  "digit_value c = length (takeWhile (\<lambda>d. d \<noteq> c) ''0123456789'')"

definition two_digits :: "char \<Rightarrow> char \<Rightarrow> nat" where
  "two_digits a b = 10 * digit_value a + digit_value b"

definition is_month_day :: "string \<Rightarrow> bool" where
  "is_month_day s =
     (case s of
        [h1, m1, m2, h2, d1, d2] \<Rightarrow>
          h1 = CHR ''-'' \<and> h2 = CHR ''-'' \<and>
          is_digit m1 \<and> is_digit m2 \<and> is_digit d1 \<and> is_digit d2 \<and>
          1 \<le> two_digits m1 m2 \<and> two_digits m1 m2 \<le> 12 \<and>
          1 \<le> two_digits d1 d2 \<and> two_digits d1 d2 \<le> 31
      | _ \<Rightarrow> False)"

definition is_iso_calendar_date :: "string \<Rightarrow> bool" where
  "is_iso_calendar_date s =
     ((length s = 10 \<and> list_all is_digit (take 4 s) \<and> is_month_day (drop 4 s)) \<or>
      (length s = 13 \<and> (hd s = CHR ''+'' \<or> hd s = CHR ''-'') \<and>
       list_all is_digit (take 6 (drop 1 s)) \<and> is_month_day (drop 7 s)))"

text \<open>The calendar fields a time value can have: the year within the range of
  \<^verbatim>\<open>Date\<close>, a month of the year and a day of a month.\<close>

definition calendar_fields :: "utc_fields \<Rightarrow> bool" where
  "calendar_fields u =
     (- 271821 \<le> utc_year u \<and> utc_year u \<le> 275760 \<and>
      1 \<le> utc_month u \<and> utc_month u \<le> 12 \<and> 1 \<le> utc_day u \<and> utc_day u \<le> 31)"

section \<open>Properties\<close>

subsection \<open>Strings and traces\<close>

lemma split_char_not_Nil: "split_char c s \<noteq> []"
  by (induction s) (auto split: list.splits)

lemma persisted_append: "persisted (xs @ ys) = persisted xs @ persisted ys"
  by (induction xs rule: persisted.induct) auto

lemma stored_append: "stored (xs @ ys) = stored xs @ stored ys"
  by (induction xs rule: stored.induct) auto

lemma persisted_no_insert: "\<forall>ev \<in> set evs. \<not> is_insert ev \<Longrightarrow> persisted evs = []"
  by (induction evs rule: persisted.induct) auto

lemma stored_no_upload: "\<forall>ev \<in> set evs. \<not> is_upload ev \<Longrightarrow> stored evs = []"
  by (induction evs rule: stored.induct) auto

subsection \<open>The upload loop\<close>

lemma length_assignedPaths: "length (assignedPaths e org i fs) = length fs"
  by (induction fs arbitrary: i) auto

lemma nth_assignedPaths:
  "k < length fs \<Longrightarrow> assignedPaths e org i fs ! k = filePath e org (i + k) (fs ! k)"
proof (induction fs arbitrary: i k)
  case Nil
  then show ?case by simp
next
  case (Cons fl rest)
  then show ?case by (cases k) auto
qed

lemma uploadOne_cases:
  obtains (rejected) ex where "upload e i (filePath e org i fl) fl = Inl ex"
      "uploadOne e org i fl =
        (Some ex, [ConsoleLog ''Uploading file to path:'',
                   Upload evidence_bucket (filePath e org i fl) fl evidence_upload_options (Inl ex)])"
  | (failed) msg where "upload e i (filePath e org i fl) fl = Inr (Some msg)"
      "uploadOne e org i fl =
        (Some (JsError (''Failed to upload file '' @ name fl @ '': '' @ msg)),
         [ConsoleLog ''Uploading file to path:'',
          Upload evidence_bucket (filePath e org i fl) fl evidence_upload_options (Inr (Some msg)),
          ConsoleError ''Upload error:'' (JsError msg)])"
  | (ok) "upload e i (filePath e org i fl) fl = Inr None"
      "uploadOne e org i fl =
        (None, [ConsoleLog ''Uploading file to path:'',
                Upload evidence_bucket (filePath e org i fl) fl evidence_upload_options (Inr None),
                ConsoleLog ''Upload successful:''])"
proof (cases "upload e i (filePath e org i fl) fl")
  case (Inl ex)
  then show ?thesis using rejected by (simp add: uploadOne_def)
next
  case (Inr a)
  then show ?thesis using failed ok by (cases a) (simp_all add: uploadOne_def)
qed

lemma uploadOne_uploads:
  "filter is_upload (snd (uploadOne e org i fl)) =
     [Upload evidence_bucket (filePath e org i fl) fl evidence_upload_options
        (upload e i (filePath e org i fl) fl)]"
  by (cases rule: uploadOne_cases [of e i org fl]) simp_all

lemma uploadOne_events:
  "\<forall>ev \<in> set (snd (uploadOne e org i fl)). is_upload ev \<or> is_console ev"
  by (cases rule: uploadOne_cases [of e i org fl]) simp_all

lemma uploadOne_None:
  "fst (uploadOne e org i fl) = None \<longleftrightarrow> upload e i (filePath e org i fl) fl = Inr None"
  by (cases rule: uploadOne_cases [of e i org fl]) simp_all

lemma uploadOne_stored:
  "stored (snd (uploadOne e org i fl)) =
     (if upload e i (filePath e org i fl) fl = Inr None then [(filePath e org i fl, fl)] else [])"
  by (cases rule: uploadOne_cases [of e i org fl]) simp_all


lemma uploadFiles_events:
  "\<forall>ev \<in> set (snd (uploadFiles e org i fs ns ps)). is_upload ev \<or> is_console ev"
proof (induction fs arbitrary: i ns ps)
  case Nil
  then show ?case by simp
next
  case (Cons fl rest)
  show ?case
  proof (cases "uploadOne e org i fl")
    case (Pair thrown evs)
    with uploadOne_events [of e org i fl]
    have evs: "\<forall>ev \<in> set evs. is_upload ev \<or> is_console ev" by simp
    show ?thesis
    proof (cases thrown)
      case (Some ex)
      with Pair evs show ?thesis by simp
    next
      case None
      with Pair evs Cons.IH [of "Suc i" "ns @ [name fl]" "ps @ [filePath e org i fl]"]
      show ?thesis by (auto split: prod.splits)
    qed
  qed
qed

lemma uploadFiles_Inr:
  "uploadFiles e org i fs ns ps = (Inr (ns', ps'), evs) \<Longrightarrow>
     ns' = ns @ map name fs \<and> ps' = ps @ assignedPaths e org i fs \<and>
     stored evs = zip (assignedPaths e org i fs) fs \<and>
     length (filter is_upload evs) = length fs"
proof (induction fs arbitrary: i ns ps evs)
  case Nil
  then show ?case by simp
next
  case (Cons fl rest)
  show ?case
  proof (cases rule: uploadOne_cases [of e i org fl])
    case (rejected ex)
    with Cons.prems show ?thesis by simp
  next
    case (failed msg)
    with Cons.prems show ?thesis by simp
  next
    case ok
    obtain r evs' where rec:
      "uploadFiles e org (Suc i) rest (ns @ [name fl]) (ps @ [filePath e org i fl]) = (r, evs')"
      by (cases "uploadFiles e org (Suc i) rest (ns @ [name fl]) (ps @ [filePath e org i fl])")
    with ok Cons.prems have r: "r = Inr (ns', ps')"
      and evs: "evs = [ConsoleLog ''Uploading file to path:'',
                Upload evidence_bucket (filePath e org i fl) fl evidence_upload_options (Inr None),
                ConsoleLog ''Upload successful:''] @ evs'"
      by simp_all
    from Cons.IH [OF rec [unfolded r]] show ?thesis
      by (simp add: evs)
  qed
qed

text \<open>When the upload of the file at index \<open>k\<close> is the first that is not answered without
  an error, the loop throws what that iteration throws, has attempted the files up to \<open>k\<close>
  and no other, and has stored the files before \<open>k\<close>.\<close>

lemma uploadFiles_fails:
  assumes "k < length fs"
    and "\<forall>j<k. upload e (i + j) (filePath e org (i + j) (fs ! j)) (fs ! j) = Inr None"
    and "upload e (i + k) (filePath e org (i + k) (fs ! k)) (fs ! k) \<noteq> Inr None"
  shows "\<exists>evs. uploadFiles e org i fs ns ps = (Inl (the (fst (uploadOne e org (i + k) (fs ! k)))), evs) \<and>
     filter is_upload evs =
       map (\<lambda>j. Upload evidence_bucket (filePath e org (i + j) (fs ! j)) (fs ! j)
                  evidence_upload_options (upload e (i + j) (filePath e org (i + j) (fs ! j)) (fs ! j)))
           [0..<Suc k] \<and>
     stored evs = map (\<lambda>j. (filePath e org (i + j) (fs ! j), fs ! j)) [0..<k]"
  using assms
proof (induction fs arbitrary: i k ns ps)
  case Nil
  then show ?case by simp
next
  case (Cons fl rest)
  show ?case
  proof (cases k)
    case 0
    with Cons.prems have bad: "upload e i (filePath e org i fl) fl \<noteq> Inr None" by simp
    then have "fst (uploadOne e org i fl) \<noteq> None" by (simp add: uploadOne_None)
    then obtain ex evs where one: "uploadOne e org i fl = (Some ex, evs)"
      by (cases "uploadOne e org i fl") auto
    with uploadOne_uploads [of e org i fl] uploadOne_stored [of e org i fl] bad 0
    show ?thesis by simp
  next
    case (Suc k')
    from Cons.prems(2) [rule_format, of 0] Suc
    have okup: "upload e i (filePath e org i fl) fl = Inr None" by simp
    then have "fst (uploadOne e org i fl) = None" by (simp add: uploadOne_None)
    then obtain evs0 where one: "uploadOne e org i fl = (None, evs0)"
      by (cases "uploadOne e org i fl") auto
    have k': "k' < length rest" using Cons.prems(1) Suc by simp
    have pre: "\<forall>j<k'. upload e (Suc i + j) (filePath e org (Suc i + j) (rest ! j)) (rest ! j) = Inr None"
      using Cons.prems(2) Suc by (auto dest: spec [of _ "Suc j" for j])
    have bad: "upload e (Suc i + k') (filePath e org (Suc i + k') (rest ! k')) (rest ! k') \<noteq> Inr None"
      using Cons.prems(3) Suc by simp
    from Cons.IH [OF k' pre bad, of "ns @ [name fl]" "ps @ [filePath e org i fl]"]
    obtain evs' where rec:
      "uploadFiles e org (Suc i) rest (ns @ [name fl]) (ps @ [filePath e org i fl]) =
         (Inl (the (fst (uploadOne e org (Suc i + k') (rest ! k')))), evs')"
      and ups: "filter is_upload evs' =
         map (\<lambda>j. Upload evidence_bucket (filePath e org (Suc i + j) (rest ! j)) (rest ! j)
                  evidence_upload_options
                  (upload e (Suc i + j) (filePath e org (Suc i + j) (rest ! j)) (rest ! j)))
           [0..<Suc k']"
      and st: "stored evs' = map (\<lambda>j. (filePath e org (Suc i + j) (rest ! j), rest ! j)) [0..<k']"
      by blast
    have "uploadFiles e org i (fl # rest) ns ps =
            (Inl (the (fst (uploadOne e org (i + k) ((fl # rest) ! k)))), evs0 @ evs')"
      using one rec Suc by simp
    moreover have "filter is_upload (evs0 @ evs') =
       map (\<lambda>j. Upload evidence_bucket (filePath e org (i + j) ((fl # rest) ! j)) ((fl # rest) ! j)
                  evidence_upload_options
                  (upload e (i + j) (filePath e org (i + j) ((fl # rest) ! j)) ((fl # rest) ! j)))
           [0..<Suc k]"
      using uploadOne_uploads [of e org i fl] one ups Suc
      by (simp add: map_upt_Suc del: upt_Suc)
    moreover have "stored (evs0 @ evs') =
        map (\<lambda>j. (filePath e org (i + j) ((fl # rest) ! j), (fl # rest) ! j)) [0..<k]"
      using uploadOne_stored [of e org i fl] one st okup Suc
      by (simp add: stored_append map_upt_Suc del: upt_Suc)
    ultimately show ?thesis by blast
  qed
qed

subsection \<open>The steps of \<^verbatim>\<open>handleSubmit\<close>\<close>

lemma createStorageBucket_events:
  "\<forall>ev \<in> set (createStorageBucket e). is_provisioning ev \<or> is_console ev"
proof (cases "listBuckets e")
  case (Inl ex)
  then show ?thesis
    by (simp add: createStorageBucket_def createStorageBucket_try_def)
next
  case (Inr answer)
  obtain buckets listError where answer: "answer = (buckets, listError)" by (cases answer)
  show ?thesis
  proof (cases "createBucket e")
    case (Inl ex)
    with Inr answer show ?thesis
      by (simp add: createStorageBucket_def createStorageBucket_try_def Let_def)
  next
    case inr: (Inr err)
    with Inr answer show ?thesis
      by (cases err) (simp_all add: createStorageBucket_def createStorageBucket_try_def Let_def)
  qed
qed

lemma uploadStep_events:
  "\<forall>ev \<in> set (snd (uploadStep e org fs)). is_upload ev \<or> is_console ev"
  using uploadFiles_events [of e org 0 fs "[]" "[]"]
  by (simp add: uploadStep_def split: prod.splits)

lemma uploadStep_Inr:
  assumes "uploadStep e org fs = (Inr (ns, ps), evs)"
  shows "ns = map name fs \<and> ps = assignedPaths e org 0 fs \<and>
         stored evs = zip (assignedPaths e org 0 fs) fs \<and>
         length (filter is_upload evs) = length fs"
proof (cases fs)
  case Nil
  with assms show ?thesis by (simp add: uploadStep_def)
next
  case (Cons fl rest)
  obtain r evs' where run: "uploadFiles e org 0 fs [] [] = (r, evs')"
    by (cases "uploadFiles e org 0 fs [] []")
  with assms Cons have "r = Inr (ns, ps)" and evs: "evs = ConsoleLog ''Uploading files:'' # evs'"
    by (simp_all add: uploadStep_def)
  with run uploadFiles_Inr [of e org 0 fs "[]" "[]" ns ps evs'] show ?thesis
    by simp
qed

lemma uploadStep_fails:
  assumes "k < length fs"
    and "\<forall>j<k. upload e j (filePath e org j (fs ! j)) (fs ! j) = Inr None"
    and "upload e k (filePath e org k (fs ! k)) (fs ! k) \<noteq> Inr None"
  shows "\<exists>evs. uploadStep e org fs = (Inl (the (fst (uploadOne e org k (fs ! k)))), evs) \<and>
     filter is_upload evs =
       map (\<lambda>j. Upload evidence_bucket (filePath e org j (fs ! j)) (fs ! j)
                  evidence_upload_options (upload e j (filePath e org j (fs ! j)) (fs ! j)))
           [0..<Suc k] \<and>
     stored evs = map (\<lambda>j. (filePath e org j (fs ! j), fs ! j)) [0..<k]"
proof -
  from uploadFiles_fails [of k fs e 0 org "[]" "[]"] assms
  obtain evs where run: "uploadFiles e org 0 fs [] [] = (Inl (the (fst (uploadOne e org k (fs ! k)))), evs)"
    and ups: "filter is_upload evs =
       map (\<lambda>j. Upload evidence_bucket (filePath e org j (fs ! j)) (fs ! j)
                  evidence_upload_options (upload e j (filePath e org j (fs ! j)) (fs ! j)))
           [0..<Suc k]"
    and st: "stored evs = map (\<lambda>j. (filePath e org j (fs ! j), fs ! j)) [0..<k]"
    by auto
  from assms(1) have "fs \<noteq> []" by auto
  with run have "uploadStep e org fs =
      (Inl (the (fst (uploadOne e org k (fs ! k)))), ConsoleLog ''Uploading files:'' # evs)"
    by (simp add: uploadStep_def)
  with ups st show ?thesis by simp
qed

lemma insertStep_cases:
  obtains (rejected) ex where "insert_row e row = Inl ex"
      "insertStep e f row = (Some ex, f, [InsertRecord row (Inl ex)])"
  | (failed) msg where "insert_row e row = Inr (Some msg)"
      "insertStep e f row =
         (Some (JsError (''Database error: '' @ msg)), f,
          [InsertRecord row (Inr (Some msg)), ConsoleError ''Database error:'' (JsError msg)])"
  | (ok) "insert_row e row = Inr None"
      "insertStep e f row =
         (None, resetForm f,
          [InsertRecord row (Inr None),
           ConsoleLog ''Record inserted successfully:'',
           Toast ''Success'' (successDescription (files f)) Default,
           OnSuccess,
           OnOpenChange False])"
proof (cases "insert_row e row")
  case (Inl ex)
  then show ?thesis using rejected by (simp add: insertStep_def)
next
  case (Inr a)
  then show ?thesis using failed ok by (cases a) (simp_all add: insertStep_def)
qed

lemma handleSubmit_try_cases:
  obtains
    (upload_failed) ex evs where
      "uploadStep e org (files f) = (Inl ex, evs)"
      "handleSubmit_try e om org f = (Some ex, f, createStorageBucket e @ evs)"
  | (no_person) ns ps evs where
      "uploadStep e org (files f) = (Inr (ns, ps), evs)"
      "finalResponsiblePerson om f = []"
      "handleSubmit_try e om org f =
         (Some (JsError ''Responsible person is required''), f, createStorageBucket e @ evs)"
  | (bad_date) ns ps evs ex where
      "uploadStep e org (files f) = (Inr (ns, ps), evs)"
      "finalResponsiblePerson om f \<noteq> []"
      "nextReviewDateValue (nextReviewDate f) = Inl ex"
      "handleSubmit_try e om org f =
         (Some ex, f,
          createStorageBucket e @ evs @ [ConsoleLog ''Inserting compliance record with files:''])"
  | (insert) ns ps evs date where
      "uploadStep e org (files f) = (Inr (ns, ps), evs)"
      "finalResponsiblePerson om f \<noteq> []"
      "nextReviewDateValue (nextReviewDate f) = Inr date"
      "handleSubmit_try e om org f =
         (fst (insertStep e f (newRecord org om f date ns ps)),
          fst (snd (insertStep e f (newRecord org om f date ns ps))),
          createStorageBucket e @ evs @
          ConsoleLog ''Inserting compliance record with files:'' #
          snd (snd (insertStep e f (newRecord org om f date ns ps))))"
proof (cases "uploadStep e org (files f)")
  case (Pair r evs)
  show ?thesis
  proof (cases r)
    case (Inl ex)
    with Pair show ?thesis using upload_failed by (simp add: handleSubmit_try_def uploadAndInsert_def)
  next
    case (Inr arrays)
    obtain ns ps where arrays: "arrays = (ns, ps)" by (cases arrays)
    show ?thesis
    proof (cases "finalResponsiblePerson om f = []")
      case True
      with Pair Inr arrays show ?thesis using no_person by (simp add: handleSubmit_try_def uploadAndInsert_def)
    next
      case False
      show ?thesis
      proof (cases "nextReviewDateValue (nextReviewDate f)")
        case (Inl ex)
        with Pair Inr arrays False show ?thesis
          using bad_date by (simp add: handleSubmit_try_def uploadAndInsert_def)
      next
        case inr: (Inr date)
        with Pair Inr arrays False show ?thesis
          using insert [of ns ps evs date]
          by (simp add: handleSubmit_try_def uploadAndInsert_def split: prod.splits)
      qed
    qed
  qed
qed

subsection \<open>The runs of \<^verbatim>\<open>handleSubmit\<close>\<close>

lemma provisioning_kind:
  "is_provisioning ev \<or> is_console ev \<Longrightarrow>
     \<not> is_insert ev \<and> \<not> is_upload ev \<and> \<not> is_toast ev \<and> \<not> is_remove ev \<and>
     ev \<noteq> OnSuccess \<and> ev \<noteq> OnOpenChange b"
  by (cases ev) auto

lemma upload_kind:
  "is_upload ev \<or> is_console ev \<Longrightarrow>
     \<not> is_insert ev \<and> \<not> is_provisioning ev \<and> \<not> is_toast ev \<and> \<not> is_remove ev \<and>
     ev \<noteq> OnSuccess \<and> ev \<noteq> OnOpenChange b"
  by (cases ev) auto

lemma createStorageBucket_no_insert: "InsertRecord row res \<notin> set (createStorageBucket e)"
  using createStorageBucket_events [of e] by fastforce

lemma uploadStep_no_insert: "InsertRecord row res \<notin> set (snd (uploadStep e org fs))"
  using uploadStep_events [of e org fs] by fastforce

lemma handleSubmit_no_org:
  "\<not> truthy (member_organisation_id om) \<Longrightarrow> handleSubmit e om f = organisationNotFound f"
  by (simp add: handleSubmit_def truthy_def split: option.splits)

lemma handleSubmit_org:
  "member_organisation_id om = Some org \<Longrightarrow> org \<noteq> [] \<Longrightarrow>
   handleSubmit e om f =
     (case handleSubmit_try e om org f of
        (Some ex, f', evs) \<Rightarrow>
          (f'\<lparr>loading := False\<rparr>, PreventDefault # evs @ handleSubmit_catch ex)
      | (None, f', evs) \<Rightarrow> (f'\<lparr>loading := False\<rparr>, PreventDefault # evs))"
  by (simp add: handleSubmit_def)

lemma org_cases:
  obtains (absent) "\<not> truthy (member_organisation_id om)"
  | (present) org where "member_organisation_id om = Some org" "org \<noteq> []"
  by (cases "member_organisation_id om") (auto simp: truthy_def)

text \<open>The run that reaches the insert.\<close>

lemma handleSubmit_insert_run:
  assumes "member_organisation_id om = Some org" "org \<noteq> []"
    and "uploadStep e org (files f) = (Inr (ns, ps), evs)"
    and "finalResponsiblePerson om f \<noteq> []"
    and "nextReviewDateValue (nextReviewDate f) = Inr date"
    and "insert_row e (newRecord org om f date ns ps) = Inr None"
  shows "handleSubmit e om f =
     ((resetForm f)\<lparr>loading := False\<rparr>,
      PreventDefault # createStorageBucket e @ evs @
      [ConsoleLog ''Inserting compliance record with files:'',
       InsertRecord (newRecord org om f date ns ps) (Inr None),
       ConsoleLog ''Record inserted successfully:'',
       Toast ''Success'' (successDescription (files f)) Default,
       OnSuccess,
       OnOpenChange False])"
  using assms
  by (simp add: handleSubmit_org handleSubmit_try_def uploadAndInsert_def insertStep_def)

lemma handleSubmit_InsertRecordE:
  assumes ins: "InsertRecord row res \<in> set (snd (handleSubmit e om f))"
  obtains org ns ps evs date where
    "member_organisation_id om = Some org" "org \<noteq> []"
    "uploadStep e org (files f) = (Inr (ns, ps), evs)"
    "finalResponsiblePerson om f \<noteq> []"
    "nextReviewDateValue (nextReviewDate f) = Inr date"
    "row = newRecord org om f date ns ps"
    "res = insert_row e row"
proof (cases rule: org_cases [of om])
  case absent
  with ins show ?thesis
    by (simp add: handleSubmit_no_org organisationNotFound_def)
next
  case (present org)
  note org = present
  show ?thesis
  proof (cases rule: handleSubmit_try_cases [of e org f om])
    case (upload_failed ex evs)
    with ins org uploadStep_no_insert [of row res e org "files f"]
    show ?thesis
      by (simp add: handleSubmit_org handleSubmit_catch_def createStorageBucket_no_insert)
  next
    case (no_person ns ps evs)
    with ins org uploadStep_no_insert [of row res e org "files f"]
    show ?thesis
      by (simp add: handleSubmit_org handleSubmit_catch_def createStorageBucket_no_insert)
  next
    case (bad_date ns ps evs ex)
    with ins org uploadStep_no_insert [of row res e org "files f"]
    show ?thesis
      by (simp add: handleSubmit_org handleSubmit_catch_def createStorageBucket_no_insert)
  next
    case (insert ns ps evs date)
    let ?row = "newRecord org om f date ns ps"
    have noup: "InsertRecord row res \<notin> set evs"
      using uploadStep_no_insert [of row res e org "files f"] insert(1) by simp
    have "row = ?row \<and> res = insert_row e ?row"
    proof (cases rule: insertStep_cases [of e ?row f])
      case (rejected ex)
      with ins org insert noup show ?thesis
        by (simp add: handleSubmit_org handleSubmit_catch_def createStorageBucket_no_insert)
    next
      case (failed msg)
      with ins org insert noup show ?thesis
        by (simp add: handleSubmit_org handleSubmit_catch_def createStorageBucket_no_insert)
    next
      case ok
      with ins org insert noup show ?thesis
        by (simp add: handleSubmit_org createStorageBucket_no_insert)
    qed
    with that [OF org insert(1,2,3)] show ?thesis by simp
  qed
qed

lemma createStorageBucket_kind:
  assumes "ev \<in> set (createStorageBucket e)"
  shows "\<not> is_insert ev \<and> \<not> is_upload ev \<and> \<not> is_toast ev \<and> \<not> is_remove ev \<and>
         ev \<noteq> OnSuccess \<and> ev \<noteq> OnOpenChange b"
  using assms createStorageBucket_events [of e] provisioning_kind [of ev b] by blast

lemma uploadStep_kind:
  assumes "ev \<in> set (snd (uploadStep e org fs))"
  shows "\<not> is_insert ev \<and> \<not> is_provisioning ev \<and> \<not> is_toast ev \<and> \<not> is_remove ev \<and>
         ev \<noteq> OnSuccess \<and> ev \<noteq> OnOpenChange b"
  using assms uploadStep_events [of e org fs] upload_kind [of ev b] by blast

lemma createStorageBucket_filters:
  "filter is_toast (createStorageBucket e) = []"
  "filter is_upload (createStorageBucket e) = []"
  "filter is_insert (createStorageBucket e) = []"
  "filter is_remove (createStorageBucket e) = []"
  "persisted (createStorageBucket e) = []"
  "stored (createStorageBucket e) = []"
  "count_list (createStorageBucket e) OnSuccess = 0"
  "OnOpenChange b \<notin> set (createStorageBucket e)"
proof -
  show "filter is_toast (createStorageBucket e) = []"
    using createStorageBucket_kind [of _ e] by (simp add: filter_empty_conv)
  show "filter is_upload (createStorageBucket e) = []"
    using createStorageBucket_kind [of _ e] by (simp add: filter_empty_conv)
  show "filter is_insert (createStorageBucket e) = []"
    using createStorageBucket_kind [of _ e] by (simp add: filter_empty_conv)
  show "filter is_remove (createStorageBucket e) = []"
    using createStorageBucket_kind [of _ e] by (simp add: filter_empty_conv)
  show "persisted (createStorageBucket e) = []"
    using createStorageBucket_kind [of _ e] by (simp add: persisted_no_insert)
  show "stored (createStorageBucket e) = []"
    using createStorageBucket_kind [of _ e] by (simp add: stored_no_upload)
  show "count_list (createStorageBucket e) OnSuccess = 0"
    using createStorageBucket_kind [of OnSuccess e] by (auto simp: count_list_0_iff)
  show "OnOpenChange b \<notin> set (createStorageBucket e)"
    using createStorageBucket_kind [of "OnOpenChange b" e b] by auto
qed

lemma uploadStep_filters:
  "filter is_toast (snd (uploadStep e org fs)) = []"
  "filter is_insert (snd (uploadStep e org fs)) = []"
  "filter is_remove (snd (uploadStep e org fs)) = []"
  "persisted (snd (uploadStep e org fs)) = []"
  "count_list (snd (uploadStep e org fs)) OnSuccess = 0"
  "OnOpenChange b \<notin> set (snd (uploadStep e org fs))"
proof -
  show "filter is_toast (snd (uploadStep e org fs)) = []"
    using uploadStep_kind [of _ e org fs] by (simp add: filter_empty_conv)
  show "filter is_insert (snd (uploadStep e org fs)) = []"
    using uploadStep_kind [of _ e org fs] by (simp add: filter_empty_conv)
  show "filter is_remove (snd (uploadStep e org fs)) = []"
    using uploadStep_kind [of _ e org fs] by (simp add: filter_empty_conv)
  show "persisted (snd (uploadStep e org fs)) = []"
    using uploadStep_kind [of _ e org fs] by (simp add: persisted_no_insert)
  show "count_list (snd (uploadStep e org fs)) OnSuccess = 0"
    using uploadStep_kind [of OnSuccess e org fs] by (auto simp: count_list_0_iff)
  show "OnOpenChange b \<notin> set (snd (uploadStep e org fs))"
    using uploadStep_kind [of "OnOpenChange b" e org fs b] by auto
qed

lemma handleSubmit_successE:
  assumes "InsertRecord row (Inr None) \<in> set (snd (handleSubmit e om f))"
  obtains org evs date where
    "member_organisation_id om = Some org" "org \<noteq> []"
    "uploadStep e org (files f) = (Inr (map name (files f), assignedPaths e org 0 (files f)), evs)"
    "finalResponsiblePerson om f \<noteq> []"
    "nextReviewDateValue (nextReviewDate f) = Inr date"
    "row = newRecord org om f date (map name (files f)) (assignedPaths e org 0 (files f))"
    "handleSubmit e om f =
       ((resetForm f)\<lparr>loading := False\<rparr>,
        PreventDefault # createStorageBucket e @ evs @
        [ConsoleLog ''Inserting compliance record with files:'',
         InsertRecord row (Inr None),
         ConsoleLog ''Record inserted successfully:'',
         Toast ''Success'' (successDescription (files f)) Default,
         OnSuccess,
         OnOpenChange False])"
proof -
  from assms obtain org ns ps evs date where
    org: "member_organisation_id om = Some org" "org \<noteq> []"
    and up: "uploadStep e org (files f) = (Inr (ns, ps), evs)"
    and person: "finalResponsiblePerson om f \<noteq> []"
    and date: "nextReviewDateValue (nextReviewDate f) = Inr date"
    and row: "row = newRecord org om f date ns ps"
    and res: "Inr None = insert_row e row"
    by (rule handleSubmit_InsertRecordE)
  from uploadStep_Inr [OF up] have arrays: "ns = map name (files f)" "ps = assignedPaths e org 0 (files f)"
    by simp_all
  from res row have "insert_row e (newRecord org om f date ns ps) = Inr None" by simp
  from handleSubmit_insert_run [OF org up person date this] row arrays up org person date that
  show ?thesis by simp
qed

subsection \<open>The sample session, evaluated\<close>

lemmas sample_defs =
  sample_report_def sample_photo_def sample_member_def sample_admin_def sample_date_def
  sample_form_def sample_form_bare_def sample_env_def sample_env_refusing_def sample_env_offline_def
  sample_env_denied_def sample_env_rejecting_def sample_env_list_error_def
  sample_minutes_def sample_form_comma_def sample_form_unassigned_def sample_row_def
  sample_row_bare_def sample_row_comma_def

lemmas run_defs =
  handleSubmit_def handleSubmit_try_def uploadAndInsert_def handleSubmit_catch_def organisationNotFound_def
  insertStep_def newRecord_def finalResponsiblePerson_def uploadStep_def uploadOne_def
  createStorageBucket_def createStorageBucket_try_def filePath_def fileName_def fileExt_def
  nextReviewDateValue_def toISOString_def iso_date_def iso_time_def iso_year_def pad0_def
  successDescription_def errorDescription_def resetForm_def member_organisation_id_def
  isAdmin_def memberName_def js_or_def truthy_def template_def pop_def first_elem_def
  substr_def digit_char_def evidence_bucket_def evidence_bucket_options_def
  evidence_upload_options_def

lemma sample_paths:
  "filePath sample_env ''org-7'' 0 sample_report = ''org-7/1700000000000_4fzyo82mv.pdf''"
  "filePath sample_env ''org-7'' 1 sample_photo = ''org-7/1700000000001_4fzyo82mv.png''"
  by (simp_all add: sample_defs filePath_def fileName_def fileExt_def substr_def template_def pop_def
       show_nat.simps digit_char_def)

lemma sample_run:
  "handleSubmit sample_env (Some sample_member) sample_form =
     (sample_form\<lparr>complianceItem := [], standardClause := [], complianceStatus := [],
        responsiblePerson := [], nextReviewDate := None, notes_field := [], files := [],
        loading := False\<rparr>,
      [PreventDefault,
       ListBuckets (Inr (Some [], None)),
       ConsoleLog ''Creating compliance-evidence bucket...'',
       CreateBucket evidence_bucket evidence_bucket_options (Inr None),
       ConsoleLog ''Bucket created successfully'',
       ConsoleLog ''Uploading files:'',
       ConsoleLog ''Uploading file to path:'',
       Upload evidence_bucket ''org-7/1700000000000_4fzyo82mv.pdf'' sample_report
         evidence_upload_options (Inr None),
       ConsoleLog ''Upload successful:'',
       ConsoleLog ''Uploading file to path:'',
       Upload evidence_bucket ''org-7/1700000000001_4fzyo82mv.png'' sample_photo
         evidence_upload_options (Inr None),
       ConsoleLog ''Upload successful:'',
       ConsoleLog ''Inserting compliance record with files:'',
       InsertRecord sample_row (Inr None),
       ConsoleLog ''Record inserted successfully:'',
       Toast ''Success'' ''Compliance record added successfully with 2 file(s)'' Default,
       OnSuccess,
       OnOpenChange False])"
  by (simp add: sample_defs run_defs show_nat.simps)



lemma sample_run_bare:
  "handleSubmit sample_env (Some sample_member) sample_form_bare =
     (sample_form_bare\<lparr>complianceItem := [], standardClause := [], complianceStatus := [],
        responsiblePerson := [], nextReviewDate := None, notes_field := [], files := [],
        loading := False\<rparr>,
      [PreventDefault,
       ListBuckets (Inr (Some [], None)),
       ConsoleLog ''Creating compliance-evidence bucket...'',
       CreateBucket evidence_bucket evidence_bucket_options (Inr None),
       ConsoleLog ''Bucket created successfully'',
       ConsoleLog ''Inserting compliance record with files:'',
       InsertRecord sample_row_bare (Inr None),
       ConsoleLog ''Record inserted successfully:'',
       Toast ''Success'' ''Compliance record added successfully'' Default,
       OnSuccess,
       OnOpenChange False])"
  by (simp add: sample_defs run_defs show_nat.simps)

lemma sample_run_comma:
  "handleSubmit sample_env (Some sample_member) sample_form_comma =
     (sample_form_comma\<lparr>complianceItem := [], standardClause := [], complianceStatus := [],
        responsiblePerson := [], nextReviewDate := None, notes_field := [], files := [],
        loading := False\<rparr>,
      [PreventDefault,
       ListBuckets (Inr (Some [], None)),
       ConsoleLog ''Creating compliance-evidence bucket...'',
       CreateBucket evidence_bucket evidence_bucket_options (Inr None),
       ConsoleLog ''Bucket created successfully'',
       ConsoleLog ''Uploading files:'',
       ConsoleLog ''Uploading file to path:'',
       Upload evidence_bucket ''org-7/1700000000000_4fzyo82mv.pdf'' sample_minutes
         evidence_upload_options (Inr None),
       ConsoleLog ''Upload successful:'',
       ConsoleLog ''Inserting compliance record with files:'',
       InsertRecord sample_row_comma (Inr None),
       ConsoleLog ''Record inserted successfully:'',
       Toast ''Success'' ''Compliance record added successfully with 1 file(s)'' Default,
       OnSuccess,
       OnOpenChange False])"
  by (simp add: sample_defs run_defs show_nat.simps)

lemma sample_run_rejecting:
  "filter is_toast (snd (handleSubmit sample_env_rejecting (Some sample_member) sample_form)) =
     [Toast ''Error'' ''Failed to fetch'' Destructive]"
  "stored (snd (handleSubmit sample_env_rejecting (Some sample_member) sample_form)) =
     [(''org-7/1700000000000_4fzyo82mv.pdf'', sample_report)]"
  "filter is_insert (snd (handleSubmit sample_env_rejecting (Some sample_member) sample_form)) = []"
  by (simp_all add: sample_defs run_defs show_nat.simps)



subsection \<open>The run with a failed upload\<close>

lemma handleSubmit_upload_failed_run:
  assumes "member_organisation_id om = Some org" "org \<noteq> []"
    and "uploadStep e org (files f) = (Inl ex, evs)"
  shows "handleSubmit e om f =
     (f\<lparr>loading := False\<rparr>, PreventDefault # createStorageBucket e @ evs @ handleSubmit_catch ex)"
  using assms by (simp add: handleSubmit_org handleSubmit_try_def uploadAndInsert_def)

lemma uploadOne_failed:
  "upload e i (filePath e org i fl) fl = Inr (Some msg) \<Longrightarrow>
   fst (uploadOne e org i fl) = Some (JsError (''Failed to upload file '' @ name fl @ '': '' @ msg))"
  by (simp add: uploadOne_def)

lemma uploadOne_rejected:
  "upload e i (filePath e org i fl) fl = Inl ex \<Longrightarrow> fst (uploadOne e org i fl) = Some ex"
  by (simp add: uploadOne_def)

subsection \<open>The bucket step and what follows it\<close>











subsection \<open>Printing numbers and dates\<close>

lemma split_char_first:
  "c \<notin> set a \<Longrightarrow> first_elem (split_char c (a @ c # b)) = Some a"
proof (induction a)
  case Nil
  then show ?case by (simp add: first_elem_def)
next
  case (Cons x a)
  then show ?case
    by (cases "split_char c (a @ c # b)") (auto simp: first_elem_def)
qed

lemma is_digit_digit_char: "d < 10 \<Longrightarrow> is_digit (digit_char d)"
  by (simp add: is_digit_def digit_char_def del: set_simps)

lemma digit_value_digit_char: "d < 10 \<Longrightarrow> digit_value (digit_char d) = d"
proof -
  assume "d < 10"
  then have "d \<in> {0, 1, 2, 3, 4, 5, 6, 7, 8, 9}" by auto
  then show ?thesis
    by (auto simp: digit_value_def digit_char_def)
qed

lemma show_nat_digits: "list_all is_digit (show_nat n)"
proof (induction n rule: show_nat.induct)
  case (1 n)
  show ?case
  proof (cases "n < 10")
    case True
    then show ?thesis by (subst show_nat.simps) (simp add: is_digit_digit_char)
  next
    case False
    with 1 show ?thesis
      by (subst show_nat.simps) (simp add: is_digit_digit_char)
  qed
qed

lemma show_nat_not_Nil: "show_nat n \<noteq> []"
  by (subst show_nat.simps) simp

lemma length_show_nat: "n < 10 ^ k \<Longrightarrow> 0 < k \<Longrightarrow> length (show_nat n) \<le> k"
proof (induction n arbitrary: k rule: show_nat.induct)
  case (1 n)
  show ?case
  proof (cases "n < 10")
    case True
    with 1(3) show ?thesis by (subst show_nat.simps) simp
  next
    case False
    with 1(2) have k: "1 < k" by (cases k; cases "k - 1") auto
    then obtain k' where k': "k = Suc k'" "0 < k'" by (cases k) auto
    with 1(2) have "n div 10 < 10 ^ k'" by (simp add: less_mult_imp_div_less mult.commute)
    from 1(1) [OF False this k'(2)] False k' show ?thesis
      by (subst show_nat.simps) simp
  qed
qed

lemma length_pad0: "length s \<le> w \<Longrightarrow> length (pad0 w s) = w"
  by (simp add: pad0_def)

lemma is_digit_zero: "is_digit (CHR ''0'')"
  by (simp add: is_digit_def)

lemma pad0_digits: "list_all is_digit s \<Longrightarrow> list_all is_digit (pad0 w s)"
  by (auto simp: pad0_def list_all_iff is_digit_zero)

lemma show_two_digits:
  assumes "n < 100"
  shows "pad0 2 (show_nat n) = [digit_char (n div 10), digit_char (n mod 10)]"
proof (cases "n < 10")
  case True
  then show ?thesis
    by (subst show_nat.simps) (simp add: pad0_def digit_char_def)
next
  case False
  with assms have "n div 10 < 10" by simp
  with False show ?thesis
    by (subst show_nat.simps, subst show_nat.simps) (simp add: pad0_def)
qed

lemma is_month_day_fields:
  assumes "1 \<le> m" "m \<le> 12" "1 \<le> d" "d \<le> 31"
  shows "is_month_day (''-'' @ pad0 2 (show_nat m) @ ''-'' @ pad0 2 (show_nat d))"
proof -
  have m: "m div 10 < 10" "m mod 10 < 10" "m < 100" using assms by simp_all
  have d: "d div 10 < 10" "d mod 10 < 10" "d < 100" using assms by simp_all
  show ?thesis
    using assms
    by (simp add: show_two_digits m d is_month_day_def two_digits_def is_digit_digit_char
          digit_value_digit_char)
qed

lemma pad0_show_nat_digit: "c \<in> set (pad0 w (show_nat n)) \<Longrightarrow> is_digit c"
  using pad0_digits [OF show_nat_digits, of w n] by (simp add: list_all_iff)

lemma iso_date_no_T: "CHR ''T'' \<notin> set (iso_date u)"
proof
  assume "CHR ''T'' \<in> set (iso_date u)"
  then have "is_digit (CHR ''T'')"
    by (auto simp: iso_date_def iso_year_def dest: pad0_show_nat_digit split: if_splits)
  then show False by (simp add: is_digit_def)
qed

lemma iso_date_not_Nil: "iso_date u \<noteq> []"
  by (simp add: iso_date_def)

lemma iso_year_short:
  assumes "0 \<le> y" "y \<le> 9999"
  shows "length (iso_year y) = 4 \<and> list_all is_digit (iso_year y)"
proof -
  from assms have "nat y < 10 ^ 4" by simp
  then have "length (show_nat (nat y)) \<le> 4" by (rule length_show_nat) simp
  with assms show ?thesis
    by (simp add: iso_year_def length_pad0 pad0_digits show_nat_digits)
qed

lemma iso_year_expanded:
  assumes "\<not> (0 \<le> y \<and> y \<le> 9999)" "- 271821 \<le> y" "y \<le> 275760"
  shows "\<exists>sign ds. iso_year y = sign # ds \<and> (sign = CHR ''+'' \<or> sign = CHR ''-'') \<and>
           length ds = 6 \<and> list_all is_digit ds"
proof -
  let ?ds = "pad0 6 (show_nat (nat \<bar>y\<bar>))"
  from assms have "nat \<bar>y\<bar> < 10 ^ 6" by simp
  then have "length (show_nat (nat \<bar>y\<bar>)) \<le> 6" by (rule length_show_nat) simp
  then have ds: "length ?ds = 6" "list_all is_digit ?ds"
    by (simp_all only: length_pad0 pad0_digits show_nat_digits)
  from assms(1) have "iso_year y = (if y < 0 then CHR ''-'' else CHR ''+'') # ?ds"
    by (simp only: iso_year_def) simp
  with ds show ?thesis by (cases "y < 0") simp_all
qed

lemma iso_date_is_calendar_date:
  assumes "calendar_fields u"
  shows "is_iso_calendar_date (iso_date u)"
proof -
  let ?md = "''-'' @ pad0 2 (show_nat (utc_month u)) @ ''-'' @ pad0 2 (show_nat (utc_day u))"
  from assms have md: "is_month_day ?md"
    by (intro is_month_day_fields) (simp_all add: calendar_fields_def)
  from assms have "utc_month u < 100" "utc_day u < 100" by (simp_all add: calendar_fields_def)
  then have len: "length ?md = 6" by (simp add: show_two_digits)
  have date: "iso_date u = iso_year (utc_year u) @ ?md" by (simp add: iso_date_def)
  show ?thesis
  proof (cases "0 \<le> utc_year u \<and> utc_year u \<le> 9999")
    case True
    with iso_year_short [of "utc_year u"]
    have "length (iso_year (utc_year u)) = 4" "list_all is_digit (iso_year (utc_year u))"
      by simp_all
    with md len show ?thesis
      unfolding is_iso_calendar_date_def date by simp
  next
    case False
    with assms iso_year_expanded [of "utc_year u"]
    obtain sign ds where y: "iso_year (utc_year u) = sign # ds"
      "sign = CHR ''+'' \<or> sign = CHR ''-''" "length ds = 6" "list_all is_digit ds"
      by (auto simp: calendar_fields_def)
    with md len show ?thesis
      unfolding is_iso_calendar_date_def date by simp
  qed
qed

lemma nextReviewDateValue_cases:
  "nextReviewDateValue None = Inr None"
  "nextReviewDateValue (Some InvalidDate) = Inl (JsError ''Invalid time value'')"
  "nextReviewDateValue (Some (DateUTC u)) = Inr (Some (iso_date u))"
  using split_char_first [OF iso_date_no_T, of u "iso_time u"] iso_date_not_Nil [of u]
  by (simp_all add: nextReviewDateValue_def toISOString_def js_or_def truthy_def)

lemma replicate_2: "replicate 2 x = [x, x]"
  by (simp add: numeral_2_eq_2)

subsection \<open>An admin without a responsible person\<close>




subsection \<open>Splitting a joined column\<close>

text \<open>For a separator of two different characters, such as \<^verbatim>\<open>', '\<close>: when no entry
  contains the separator, splitting the join gives the entries back.\<close>

lemma not_occurs_Cons:
  assumes "\<not> occurs sep (c # x)"
  shows "take (length sep) (c # x) \<noteq> sep" and "\<not> occurs sep x"
  using assms by (simp_all only: occurs.simps de_Morgan_disj simp_thms)

lemma split_from_skip:
  "take (length sep) (c # s) \<noteq> sep \<Longrightarrow> split_from sep cur (c # s) = split_from sep (cur @ [c]) s"
  by (simp only: split_from.simps simp_thms if_False)

lemma split_from_entry:
  assumes "a \<noteq> b"
  shows "\<not> occurs [a, b] x \<Longrightarrow>
         split_from [a, b] cur (x @ [a, b] @ rest) = (cur @ x) # split_from [a, b] [] rest"
proof (induction x arbitrary: cur)
  case Nil
  then show ?case by simp
next
  case (Cons c x)
  note here = not_occurs_Cons(1) [OF Cons.prems] and later = not_occurs_Cons(2) [OF Cons.prems]
  have "take (length [a, b]) (c # (x @ [a, b] @ rest)) \<noteq> [a, b]"
  proof (cases x)
    case Nil
    with assms show ?thesis by simp
  next
    case (Cons d x')
    with here show ?thesis by simp
  qed
  then have "split_from [a, b] cur (c # (x @ [a, b] @ rest)) =
             split_from [a, b] (cur @ [c]) (x @ [a, b] @ rest)"
    by (rule split_from_skip)
  with Cons.IH [OF later, of "cur @ [c]"] show ?case by simp
qed

lemma split_from_last:
  "\<not> occurs [a, b] x \<Longrightarrow> split_from [a, b] cur x = [cur @ x]"
proof (induction x arbitrary: cur)
  case Nil
  then show ?case by simp
next
  case (Cons c x)
  note here = not_occurs_Cons(1) [OF Cons.prems] and later = not_occurs_Cons(2) [OF Cons.prems]
  from here have "split_from [a, b] cur (c # x) = split_from [a, b] (cur @ [c]) x"
    by (rule split_from_skip)
  with Cons.IH [OF later, of "cur @ [c]"] show ?case by simp
qed

lemma js_split_join:
  assumes "a \<noteq> b"
  shows "xs \<noteq> [] \<Longrightarrow> \<forall>x \<in> set xs. \<not> occurs [a, b] x \<Longrightarrow> js_split [a, b] (join [a, b] xs) = xs"
proof (induction xs)
  case Nil
  then show ?case by simp
next
  case (Cons x xs)
  from Cons.prems have x: "\<not> occurs [a, b] x" by simp
  show ?case
  proof (cases xs)
    case Nil
    with x show ?thesis by (simp add: js_split_def split_from_last)
  next
    case (Cons y ys)
    with Cons.IH Cons.prems have "js_split [a, b] (join [a, b] xs) = xs" by simp
    with split_from_entry [OF assms x, of "[]" "join [a, b] xs"] Cons show ?thesis
      by (simp add: js_split_def)
  qed
qed

lemma comma_blank_split:
  "js_split '', '' ''a, b.pdf'' = [''a'', ''b.pdf'']"
  "js_split '', '' ''org-7/1700000000000_4fzyo82mv.pdf'' = [''org-7/1700000000000_4fzyo82mv.pdf'']"
  by (simp_all add: js_split_def)

section \<open>The claims\<close>




text \<open>
  Claim C2. When the caller identity has no organisation (there is no identity, its
  \<^verbatim>\<open>organisation_id\<close> is null, or it is the empty string), \<^verbatim>\<open>handleSubmit\<close> only
  shows the toast "Organisation not found": the state is unchanged and the trace holds no
  request to the backend, so no bucket call, no upload and no insert. The standards are not
  fetched either: both \<^verbatim>\<open>fetchStandards\<close> and the effect that calls it do nothing.
\<close>

theorem organisation_absent_rejected:
  assumes "\<not> truthy (member_organisation_id om)"
  shows "handleSubmit e om f =
           (f, [PreventDefault, Toast ''Error'' ''Organisation not found'' Destructive]) \<and>
         filter is_network (snd (handleSubmit e om f)) = [] \<and>
         fetchStandards e om f = (f, []) \<and>
         openEffect e opened om f = (f, [])"
  using assms
  by (simp add: handleSubmit_no_org organisationNotFound_def openEffect_def fetchStandards_def
        truthy_def split: option.splits)

theorem organisation_absent_rejected_witness:
  "\<not> truthy (member_organisation_id (Some (sample_member\<lparr>organisation_id := None\<rparr>))) \<and>
   handleSubmit sample_env (Some (sample_member\<lparr>organisation_id := None\<rparr>)) sample_form =
     (sample_form, [PreventDefault, Toast ''Error'' ''Organisation not found'' Destructive])"
  using organisation_absent_rejected
    [of "Some (sample_member\<lparr>organisation_id := None\<rparr>)" sample_env sample_form True]
  by (simp add: member_organisation_id_def truthy_def sample_member_def)

text \<open>
  Claim C3, as the code has it. When a submission has inserted its record (the insert was
  answered without an error), that record is the only one persisted. With no file attached
  its \<^verbatim>\<open>file_name\<close> and \<^verbatim>\<open>file_path\<close> are null. With \<open>N \<ge> 1\<close> files, \<^verbatim>\<open>file_name\<close> is
  the join with \<^verbatim>\<open>', '\<close> of the \<open>N\<close> original names in selection order, and \<^verbatim>\<open>file_path\<close>
  the join of the \<open>N\<close> storage paths in the same order: the objects the run has stored are
  exactly the selected files, in order, the \<open>k\<close>-th under the path of the \<open>k\<close>-th iteration.
  When no name contains \<^verbatim>\<open>', '\<close>, splitting \<^verbatim>\<open>file_name\<close> at \<^verbatim>\<open>', '\<close> gives the \<open>N\<close> names
  back, and when no path contains it, splitting \<^verbatim>\<open>file_path\<close> gives the \<open>N\<close> paths back.
\<close>

theorem file_columns_parallel:
  assumes "InsertRecord row (Inr None) \<in> set (snd (handleSubmit e om f))"
  shows "persisted (snd (handleSubmit e om f)) = [row] \<and>
         (files f = [] \<longrightarrow> rec_file_name row = None \<and> rec_file_path row = None) \<and>
         (files f \<noteq> [] \<longrightarrow>
            rec_file_name row = Some (join '', '' (map name (files f))) \<and>
            rec_file_path row = Some (join '', '' (map fst (stored (snd (handleSubmit e om f)))))) \<and>
         map snd (stored (snd (handleSubmit e om f))) = files f \<and>
         (\<forall>k<length (files f).
            stored (snd (handleSubmit e om f)) ! k =
              (filePath e (rec_organisation_id row) k (files f ! k), files f ! k)) \<and>
         (files f \<noteq> [] \<and> (\<forall>fl \<in> set (files f). \<not> occurs '', '' (name fl)) \<longrightarrow>
            (\<exists>s. rec_file_name row = Some s \<and>
                 js_split '', '' s = map name (files f) \<and>
                 length (js_split '', '' s) = length (files f))) \<and>
         (files f \<noteq> [] \<and>
          (\<forall>p \<in> set (map fst (stored (snd (handleSubmit e om f)))). \<not> occurs '', '' p) \<longrightarrow>
            (\<exists>s. rec_file_path row = Some s \<and>
                 js_split '', '' s = map fst (stored (snd (handleSubmit e om f))) \<and>
                 length (js_split '', '' s) = length (files f)))"
  using assms
proof (rule handleSubmit_successE)
  fix org evs date
  assume up: "uploadStep e org (files f) =
      (Inr (map name (files f), assignedPaths e org 0 (files f)), evs)"
    and row: "row = newRecord org om f date (map name (files f)) (assignedPaths e org 0 (files f))"
    and run: "handleSubmit e om f =
       ((resetForm f)\<lparr>loading := False\<rparr>,
        PreventDefault # createStorageBucket e @ evs @
        [ConsoleLog ''Inserting compliance record with files:'',
         InsertRecord row (Inr None),
         ConsoleLog ''Record inserted successfully:'',
         Toast ''Success'' (successDescription (files f)) Default,
         OnSuccess,
         OnOpenChange False])"
  let ?paths = "assignedPaths e org 0 (files f)"
  let ?names = "map name (files f)"
  from uploadStep_Inr [OF up] have st: "stored evs = zip ?paths (files f)" by simp
  from up uploadStep_filters(4) [of e org "files f"] have pe: "persisted evs = []" by simp
  have stored_run: "stored (snd (handleSubmit e om f)) = zip ?paths (files f)"
    by (simp add: run stored_append createStorageBucket_filters st)
  have persisted_run: "persisted (snd (handleSubmit e om f)) = [row]"
    by (simp add: run persisted_append createStorageBucket_filters pe)
  have org: "rec_organisation_id row = org" by (simp add: row newRecord_def)
  have fsts: "map fst (zip ?paths (files f)) = ?paths"
    by (simp add: length_assignedPaths)
  have snds: "map snd (zip ?paths (files f)) = files f"
    by (simp add: length_assignedPaths)
  have nth: "\<forall>k<length (files f). zip ?paths (files f) ! k = (filePath e org k (files f ! k), files f ! k)"
    by (simp add: length_assignedPaths nth_assignedPaths)
  have cols: "files f \<noteq> [] \<longrightarrow>
            rec_file_name row = Some (join '', '' ?names) \<and>
            rec_file_path row = Some (join '', '' ?paths)"
    by (simp add: row newRecord_def length_assignedPaths)
  have nocols: "files f = [] \<longrightarrow> rec_file_name row = None \<and> rec_file_path row = None"
    by (simp add: row newRecord_def)
  have sep: "CHR '','' \<noteq> CHR '' ''" by simp
  have split_names: "files f \<noteq> [] \<and> (\<forall>fl \<in> set (files f). \<not> occurs '', '' (name fl)) \<longrightarrow>
      js_split '', '' (join '', '' ?names) = ?names"
    using js_split_join [OF sep, of ?names] by simp
  have split_paths: "files f \<noteq> [] \<and> (\<forall>p \<in> set ?paths. \<not> occurs '', '' p) \<longrightarrow>
      js_split '', '' (join '', '' ?paths) = ?paths"
  proof
    assume a: "files f \<noteq> [] \<and> (\<forall>p \<in> set ?paths. \<not> occurs '', '' p)"
    then have "?paths \<noteq> []" using length_assignedPaths [of e org 0 "files f"] by auto
    with a js_split_join [OF sep, of ?paths] show "js_split '', '' (join '', '' ?paths) = ?paths"
      by simp
  qed
  from persisted_run nocols cols nth split_names split_paths show ?thesis
    by (simp add: stored_run fsts snds org length_assignedPaths)
qed

theorem file_columns_parallel_witness:
  "InsertRecord sample_row (Inr None) \<in>
     set (snd (handleSubmit sample_env (Some sample_member) sample_form)) \<and>
   files sample_form = [sample_report, sample_photo] \<and>
   \<not> occurs '', '' (name sample_report) \<and> \<not> occurs '', '' (name sample_photo) \<and>
   rec_file_name sample_row = Some ''report.pdf, site.photo.png'' \<and>
   js_split '', '' ''report.pdf, site.photo.png'' = [''report.pdf'', ''site.photo.png''] \<and>
   stored (snd (handleSubmit sample_env (Some sample_member) sample_form)) =
     [(''org-7/1700000000000_4fzyo82mv.pdf'', sample_report),
      (''org-7/1700000000001_4fzyo82mv.png'', sample_photo)] \<and>
   \<not> occurs '', '' ''org-7/1700000000000_4fzyo82mv.pdf'' \<and>
   \<not> occurs '', '' ''org-7/1700000000001_4fzyo82mv.png'' \<and>
   rec_file_path sample_row =
     Some ''org-7/1700000000000_4fzyo82mv.pdf, org-7/1700000000001_4fzyo82mv.png'' \<and>
   js_split '', '' ''org-7/1700000000000_4fzyo82mv.pdf, org-7/1700000000001_4fzyo82mv.png'' =
     [''org-7/1700000000000_4fzyo82mv.pdf'', ''org-7/1700000000001_4fzyo82mv.png''] \<and>
   InsertRecord sample_row_bare (Inr None) \<in>
     set (snd (handleSubmit sample_env (Some sample_member) sample_form_bare)) \<and>
   files sample_form_bare = [] \<and>
   rec_file_name sample_row_bare = None \<and> rec_file_path sample_row_bare = None"
proof -
  have no_sep: "\<not> occurs '', '' (name sample_report)" "\<not> occurs '', '' (name sample_photo)"
    "\<not> occurs '', '' ''org-7/1700000000000_4fzyo82mv.pdf''"
    "\<not> occurs '', '' ''org-7/1700000000001_4fzyo82mv.png''"
    by (simp_all add: sample_report_def sample_photo_def)
  from file_columns_parallel [of sample_row sample_env "Some sample_member" sample_form]
    file_columns_parallel [of sample_row_bare sample_env "Some sample_member" sample_form_bare]
    no_sep
  show ?thesis
    by (simp add: sample_run sample_run_bare)
       (simp add: sample_form_def sample_form_bare_def sample_row_def sample_row_bare_def
          sample_report_def sample_photo_def)
qed

text \<open>
  Claim C3 as stated, for every file name, fails: without that condition the two columns
  need not have the same number of entries, since nothing escapes the separator. One file named \<^verbatim>\<open>a, b.pdf\<close> is persisted with a \<^verbatim>\<open>file_name\<close> of
  two entries and a \<^verbatim>\<open>file_path\<close> of one.
\<close>

theorem file_columns_comma_counterexample:
  "InsertRecord sample_row_comma (Inr None) \<in>
     set (snd (handleSubmit sample_env (Some sample_member) sample_form_comma)) \<and>
   files sample_form_comma = [sample_minutes] \<and>
   name sample_minutes = ''a, b.pdf'' \<and>
   rec_file_name sample_row_comma = Some ''a, b.pdf'' \<and>
   js_split '', '' ''a, b.pdf'' = [''a'', ''b.pdf''] \<and>
   length (js_split '', '' ''a, b.pdf'') = 2 \<and>
   rec_file_path sample_row_comma = Some ''org-7/1700000000000_4fzyo82mv.pdf'' \<and>
   length (js_split '', '' ''org-7/1700000000000_4fzyo82mv.pdf'') = 1"
  by (simp add: sample_run_comma comma_blank_split)
     (simp add: sample_form_comma_def sample_minutes_def sample_row_comma_def)

text \<open>
  Claim C4. When the caller is not an admin, the record handed to the insert carries the
  caller's own name as responsible person: the full name when there is one (present and
  not empty), otherwise the email. The value does not depend on the state variable
  \<^verbatim>\<open>responsiblePerson\<close>. For such a caller the dialog renders the read-only input with
  that name, never the select over the roster.
\<close>

theorem non_admin_responsible_person:
  assumes "\<not> isAdmin om"
    and "InsertRecord row res \<in> set (snd (handleSubmit e om f))"
  shows "\<exists>m. om = Some m \<and>
           rec_responsible_person row = memberName om \<and>
           (truthy (full_name m) \<longrightarrow> full_name m = Some (rec_responsible_person row)) \<and>
           (\<not> truthy (full_name m) \<longrightarrow> email m = Some (rec_responsible_person row)) \<and>
           (\<forall>teamMembers g. responsibleControl om teamMembers g = ReadOnlyInput (memberName om))"
proof -
  from assms(2) obtain org ns ps evs date where
    org: "member_organisation_id om = Some org"
    and person: "finalResponsiblePerson om f \<noteq> []"
    and row: "row = newRecord org om f date ns ps"
    by (rule handleSubmit_InsertRecordE)
  from org obtain m where m: "om = Some m"
    by (cases om) (simp_all add: member_organisation_id_def)
  from row assms(1) have rp: "rec_responsible_person row = memberName om"
    by (simp add: newRecord_def finalResponsiblePerson_def)
  from person assms(1) have ne: "memberName om \<noteq> []"
    by (simp add: finalResponsiblePerson_def)
  have full: "truthy (full_name m) \<longrightarrow> full_name m = Some (memberName om)"
    using m by (auto simp: memberName_def js_or_def truthy_def split: option.splits)
  have mail: "\<not> truthy (full_name m) \<longrightarrow> email m = Some (memberName om)"
    using m ne by (auto simp: memberName_def js_or_def truthy_def split: option.splits)
  have ctl: "\<forall>teamMembers g. responsibleControl om teamMembers g = ReadOnlyInput (memberName om)"
    using assms(1) by (simp add: responsibleControl_def)
  from m rp full mail ctl show ?thesis by simp
qed

theorem non_admin_responsible_person_witness:
  "\<not> isAdmin (Some sample_member) \<and>
   InsertRecord sample_row (Inr None) \<in>
     set (snd (handleSubmit sample_env (Some sample_member) sample_form)) \<and>
   responsiblePerson sample_form = ''Cy Young'' \<and>
   rec_responsible_person sample_row = ''bo@example.org'' \<and>
   email sample_member = Some (rec_responsible_person sample_row)"
  using non_admin_responsible_person
    [of "Some sample_member" sample_row "Inr None" sample_env sample_form]
  by (simp add: sample_run) (simp add: isAdmin_def sample_member_def sample_form_def sample_row_def)

text \<open>
  Claim C5, as the code has it. An upload fails when the storage client answers it with an
  error or when the call is rejected. When the uploads of the files before index \<open>k\<close> went
  through and the upload of the file at index \<open>k\<close> (the file \<open>K = k + 1\<close> of the claim) fails,
  the uploads of the run are those of the files \<open>0\<close> to \<open>k\<close> in order, so none of the later
  files is attempted; no insert is issued and nothing is persisted; no object is removed,
  and the files before \<open>k\<close> are what the run has put into storage; the form keeps its values.
  The only toast is an error toast. When the client answered with the error message
  \<open>msg\<close>, its text names the file \<open>k\<close> and ends with \<open>msg\<close>. When the call was rejected, its
  text is the message of the rejection alone, or "Failed to add compliance record" when
  what was thrown is no \<^verbatim>\<open>Error\<close>.
\<close>

theorem upload_failure_aborts:
  assumes "member_organisation_id om = Some org" "org \<noteq> []"
    and "k < length (files f)"
    and "\<forall>j<k. upload e j (filePath e org j (files f ! j)) (files f ! j) = Inr None"
    and "upload e k (filePath e org k (files f ! k)) (files f ! k) = r"
    and "r \<noteq> Inr None"
  shows "filter is_upload (snd (handleSubmit e om f)) =
           map (\<lambda>j. Upload evidence_bucket (filePath e org j (files f ! j)) (files f ! j)
                      evidence_upload_options (if j < k then Inr None else r))
               [0..<Suc k] \<and>
         (\<forall>msg. r = Inr (Some msg) \<longrightarrow>
            filter is_toast (snd (handleSubmit e om f)) =
              [Toast ''Error''
                 (''Failed to upload file '' @ name (files f ! k) @ '': '' @ msg) Destructive]) \<and>
         (\<forall>msg. r = Inl (JsError msg) \<longrightarrow>
            filter is_toast (snd (handleSubmit e om f)) = [Toast ''Error'' msg Destructive]) \<and>
         (r = Inl JsOther \<longrightarrow>
            filter is_toast (snd (handleSubmit e om f)) =
              [Toast ''Error'' ''Failed to add compliance record'' Destructive]) \<and>
         filter is_insert (snd (handleSubmit e om f)) = [] \<and>
         persisted (snd (handleSubmit e om f)) = [] \<and>
         filter is_remove (snd (handleSubmit e om f)) = [] \<and>
         stored (snd (handleSubmit e om f)) =
           map (\<lambda>j. (filePath e org j (files f ! j), files f ! j)) [0..<k] \<and>
         fst (handleSubmit e om f) = f\<lparr>loading := False\<rparr>"
proof -
  let ?fs = "files f"
  let ?ex = "the (fst (uploadOne e org k (?fs ! k)))"
  from assms(5,6) have bad: "upload e k (filePath e org k (?fs ! k)) (?fs ! k) \<noteq> Inr None"
    by simp
  from uploadStep_fails [OF assms(3) assms(4) bad]
  obtain evs where step: "uploadStep e org ?fs = (Inl ?ex, evs)"
    and ups: "filter is_upload evs =
       map (\<lambda>j. Upload evidence_bucket (filePath e org j (?fs ! j)) (?fs ! j)
                  evidence_upload_options (upload e j (filePath e org j (?fs ! j)) (?fs ! j)))
           [0..<Suc k]"
    and st: "stored evs = map (\<lambda>j. (filePath e org j (?fs ! j), ?fs ! j)) [0..<k]"
    by auto
  have ups': "filter is_upload evs =
       map (\<lambda>j. Upload evidence_bucket (filePath e org j (?fs ! j)) (?fs ! j)
                  evidence_upload_options (if j < k then Inr None else r))
           [0..<Suc k]"
    unfolding ups
  proof (rule map_cong [OF refl])
    fix j assume "j \<in> set [0..<Suc k]"
    then have "j < k \<or> j = k" by auto
    then show "Upload evidence_bucket (filePath e org j (?fs ! j)) (?fs ! j)
                  evidence_upload_options (upload e j (filePath e org j (?fs ! j)) (?fs ! j)) =
               Upload evidence_bucket (filePath e org j (?fs ! j)) (?fs ! j)
                  evidence_upload_options (if j < k then Inr None else r)"
      using assms(4,5) by auto
  qed
  from step uploadStep_filters(1,2,3,4) [of e org ?fs]
  have none: "filter is_toast evs = []" "filter is_insert evs = []" "filter is_remove evs = []"
    "persisted evs = []"
    by simp_all
  note run = handleSubmit_upload_failed_run [OF assms(1,2) step]
  have toast: "filter is_toast (snd (handleSubmit e om f)) =
      [Toast ''Error'' (errorDescription ?ex) Destructive]"
    by (simp add: run createStorageBucket_filters none handleSubmit_catch_def)
  have answered: "\<forall>msg. r = Inr (Some msg) \<longrightarrow>
      ?ex = JsError (''Failed to upload file '' @ name (?fs ! k) @ '': '' @ msg)"
    using assms(5) by (auto simp: uploadOne_failed)
  have rejected: "\<forall>ex. r = Inl ex \<longrightarrow> ?ex = ex"
    using assms(5) by (auto simp: uploadOne_rejected)
  have rest: "filter is_upload (snd (handleSubmit e om f)) =
           map (\<lambda>j. Upload evidence_bucket (filePath e org j (?fs ! j)) (?fs ! j)
                      evidence_upload_options (if j < k then Inr None else r))
               [0..<Suc k] \<and>
         filter is_insert (snd (handleSubmit e om f)) = [] \<and>
         persisted (snd (handleSubmit e om f)) = [] \<and>
         filter is_remove (snd (handleSubmit e om f)) = [] \<and>
         stored (snd (handleSubmit e om f)) =
           map (\<lambda>j. (filePath e org j (?fs ! j), ?fs ! j)) [0..<k] \<and>
         fst (handleSubmit e om f) = f\<lparr>loading := False\<rparr>"
    by (simp add: run createStorageBucket_filters none ups' st handleSubmit_catch_def
          persisted_append stored_append del: upt_Suc)
  from toast answered rejected rest show ?thesis
    by (simp add: errorDescription_def del: upt_Suc)
qed

theorem upload_failure_aborts_witness:
  "member_organisation_id (Some sample_member) = Some ''org-7'' \<and>
   (1::nat) < length (files sample_form) \<and>
   upload sample_env_refusing 0 (filePath sample_env_refusing ''org-7'' 0 (files sample_form ! 0))
     (files sample_form ! 0) = Inr None \<and>
   upload sample_env_refusing 1 (filePath sample_env_refusing ''org-7'' 1 (files sample_form ! 1))
     (files sample_form ! 1) = Inr (Some ''quota exceeded'') \<and>
   filter is_toast (snd (handleSubmit sample_env_refusing (Some sample_member) sample_form)) =
     [Toast ''Error'' ''Failed to upload file site.photo.png: quota exceeded'' Destructive] \<and>
   stored (snd (handleSubmit sample_env_refusing (Some sample_member) sample_form)) =
     [(''org-7/1700000000000_4fzyo82mv.pdf'', sample_report)] \<and>
   upload sample_env_rejecting 0 (filePath sample_env_rejecting ''org-7'' 0 (files sample_form ! 0))
     (files sample_form ! 0) = Inr None \<and>
   upload sample_env_rejecting 1 (filePath sample_env_rejecting ''org-7'' 1 (files sample_form ! 1))
     (files sample_form ! 1) = Inl (JsError ''Failed to fetch'') \<and>
   filter is_toast (snd (handleSubmit sample_env_rejecting (Some sample_member) sample_form)) =
     [Toast ''Error'' ''Failed to fetch'' Destructive] \<and>
   persisted (snd (handleSubmit sample_env_rejecting (Some sample_member) sample_form)) = []"
proof -
  have org: "member_organisation_id (Some sample_member) = Some ''org-7''"
    by (simp add: member_organisation_id_def sample_member_def)
  have ne: "''org-7'' \<noteq> []" by simp
  have k: "(1::nat) < length (files sample_form)" by (simp add: sample_form_def)
  have before: "\<forall>j<1. upload sample_env_refusing j
      (filePath sample_env_refusing ''org-7'' j (files sample_form ! j)) (files sample_form ! j) = Inr None"
    by (simp add: sample_env_refusing_def sample_env_def)
  have at: "upload sample_env_refusing 1
      (filePath sample_env_refusing ''org-7'' 1 (files sample_form ! 1)) (files sample_form ! 1) =
      Inr (Some ''quota exceeded'')"
    by (simp add: sample_env_refusing_def sample_env_def)
  have bad: "Inr (Some ''quota exceeded'') \<noteq> (Inr None :: call_result)" by simp
  have before': "\<forall>j<1. upload sample_env_rejecting j
      (filePath sample_env_rejecting ''org-7'' j (files sample_form ! j)) (files sample_form ! j) = Inr None"
    by (simp add: sample_env_rejecting_def sample_env_def)
  have at': "upload sample_env_rejecting 1
      (filePath sample_env_rejecting ''org-7'' 1 (files sample_form ! 1)) (files sample_form ! 1) =
      Inl (JsError ''Failed to fetch'')"
    by (simp add: sample_env_rejecting_def sample_env_def)
  have bad': "Inl (JsError ''Failed to fetch'') \<noteq> (Inr None :: call_result)" by simp
  have path: "filePath sample_env_refusing ''org-7'' 0 sample_report = ''org-7/1700000000000_4fzyo82mv.pdf''"
    by (simp add: sample_defs filePath_def fileName_def fileExt_def substr_def template_def pop_def
         show_nat.simps digit_char_def)
  from upload_failure_aborts [OF org ne k before at bad]
    upload_failure_aborts [OF org ne k before' at' bad']
    org k before at before' at' path
  show ?thesis
    by (simp add: sample_form_def sample_photo_def)
qed

text \<open>
  Claim C5 as stated, for every failing upload, fails: when the upload of the second file
  is rejected with "Failed to fetch", the toast shows that message, in which the name of
  the file does not occur.
\<close>

theorem upload_rejected_counterexample:
  "files sample_form ! 1 = sample_photo \<and>
   name sample_photo = ''site.photo.png'' \<and>
   upload sample_env_rejecting 1 (filePath sample_env_rejecting ''org-7'' 1 sample_photo) sample_photo =
     Inl (JsError ''Failed to fetch'') \<and>
   filter is_toast (snd (handleSubmit sample_env_rejecting (Some sample_member) sample_form)) =
     [Toast ''Error'' ''Failed to fetch'' Destructive] \<and>
   \<not> occurs ''site.photo.png'' ''Failed to fetch''"
  by (simp add: sample_run_rejecting)
     (simp add: sample_form_def sample_photo_def sample_env_rejecting_def sample_env_def)




text \<open>
  Claim C7. When a submission has inserted its record, the state it leaves has the
  compliance item, the standard clause, the status, the responsible person and the notes
  empty, no review date and no files (and \<^verbatim>\<open>loading\<close> false); \<^verbatim>\<open>onSuccess\<close> was called
  exactly once; \<^verbatim>\<open>onOpenChange(false)\<close> was called; and the only toast is the success toast,
  whose text ends with the number of files when files were attached.
\<close>

theorem success_resets_and_notifies:
  assumes "InsertRecord row (Inr None) \<in> set (snd (handleSubmit e om f))"
  shows "fst (handleSubmit e om f) =
           f\<lparr>complianceItem := [], standardClause := [], complianceStatus := [],
             responsiblePerson := [], nextReviewDate := None, notes_field := [], files := [],
             loading := False\<rparr> \<and>
         count_list (snd (handleSubmit e om f)) OnSuccess = 1 \<and>
         OnOpenChange False \<in> set (snd (handleSubmit e om f)) \<and>
         filter is_toast (snd (handleSubmit e om f)) =
           [Toast ''Success''
              (''Compliance record added successfully'' @
               (if files f = [] then []
                else '' with '' @ show_nat (length (files f)) @ '' file(s)''))
              Default]"
  using assms
proof (rule handleSubmit_successE)
  fix org evs date
  assume up: "uploadStep e org (files f) =
      (Inr (map name (files f), assignedPaths e org 0 (files f)), evs)"
    and run: "handleSubmit e om f =
       ((resetForm f)\<lparr>loading := False\<rparr>,
        PreventDefault # createStorageBucket e @ evs @
        [ConsoleLog ''Inserting compliance record with files:'',
         InsertRecord row (Inr None),
         ConsoleLog ''Record inserted successfully:'',
         Toast ''Success'' (successDescription (files f)) Default,
         OnSuccess,
         OnOpenChange False])"
  from up uploadStep_filters(1,5) [of e org "files f"]
  have evs: "filter is_toast evs = []" "count_list evs OnSuccess = 0"
    by simp_all
  show ?thesis
    by (simp add: run evs createStorageBucket_filters resetForm_def successDescription_def)
qed

theorem success_resets_and_notifies_witness:
  "InsertRecord sample_row (Inr None) \<in>
     set (snd (handleSubmit sample_env (Some sample_member) sample_form)) \<and>
   complianceItem (fst (handleSubmit sample_env (Some sample_member) sample_form)) = [] \<and>
   files (fst (handleSubmit sample_env (Some sample_member) sample_form)) = [] \<and>
   count_list (snd (handleSubmit sample_env (Some sample_member) sample_form)) OnSuccess = 1 \<and>
   filter is_toast (snd (handleSubmit sample_env (Some sample_member) sample_form)) =
     [Toast ''Success'' ''Compliance record added successfully with 2 file(s)'' Default] \<and>
   InsertRecord sample_row_bare (Inr None) \<in>
     set (snd (handleSubmit sample_env (Some sample_member) sample_form_bare)) \<and>
   files sample_form_bare = [] \<and>
   notes_field (fst (handleSubmit sample_env (Some sample_member) sample_form_bare)) = [] \<and>
   filter is_toast (snd (handleSubmit sample_env (Some sample_member) sample_form_bare)) =
     [Toast ''Success'' ''Compliance record added successfully'' Default]"
  using success_resets_and_notifies [of sample_row sample_env "Some sample_member" sample_form]
    success_resets_and_notifies [of sample_row_bare sample_env "Some sample_member" sample_form_bare]
  by (simp add: sample_run sample_run_bare) (simp add: sample_form_bare_def)

text \<open>
  Claim C8. The record handed to the insert has \<^verbatim>\<open>next_review_date\<close> null when no review
  date was picked. When a date was picked, it is a time value (with the invalid date
  \<^verbatim>\<open>toISOString\<close> throws and no insert is issued), and the column is the part of its ISO
  string before the \<^verbatim>\<open>T\<close>: the calendar date in UTC, without a \<^verbatim>\<open>T\<close> and so without a
  time component, and for the calendar fields of a time value a well-formed ISO calendar
  date.
\<close>

theorem review_date_is_iso_date:
  assumes "InsertRecord row res \<in> set (snd (handleSubmit e om f))"
  shows "(nextReviewDate f = None \<longrightarrow> rec_next_review_date row = None) \<and>
         (\<forall>d. nextReviewDate f = Some d \<longrightarrow>
            (\<exists>u. d = DateUTC u \<and>
                 toISOString d = Inr (iso_date u @ ''T'' @ iso_time u) \<and>
                 rec_next_review_date row = Some (iso_date u) \<and>
                 CHR ''T'' \<notin> set (iso_date u) \<and>
                 (calendar_fields u \<longrightarrow> is_iso_calendar_date (iso_date u))))"
proof -
  from assms obtain org ns ps evs date where
    date: "nextReviewDateValue (nextReviewDate f) = Inr date"
    and row: "row = newRecord org om f date ns ps"
    by (rule handleSubmit_InsertRecordE)
  from row have col: "rec_next_review_date row = date" by (simp add: newRecord_def)
  show ?thesis
  proof (cases "nextReviewDate f")
    case None
    with date col show ?thesis by (simp add: nextReviewDateValue_cases)
  next
    case (Some d)
    show ?thesis
    proof (cases d)
      case InvalidDate
      with Some date show ?thesis by (simp add: nextReviewDateValue_cases)
    next
      case (DateUTC u)
      with Some date col show ?thesis
        by (simp add: nextReviewDateValue_cases toISOString_def iso_date_no_T
              iso_date_is_calendar_date)
    qed
  qed
qed

theorem review_date_is_iso_date_witness:
  "InsertRecord sample_row (Inr None) \<in>
     set (snd (handleSubmit sample_env (Some sample_member) sample_form)) \<and>
   nextReviewDate sample_form = Some sample_date \<and>
   toISOString sample_date = Inr ''2025-03-09T23:00:00.000Z'' \<and>
   rec_next_review_date sample_row = Some ''2025-03-09'' \<and>
   is_iso_calendar_date ''2025-03-09'' \<and>
   InsertRecord sample_row_bare (Inr None) \<in>
     set (snd (handleSubmit sample_env (Some sample_member) sample_form_bare)) \<and>
   nextReviewDate sample_form_bare = None \<and>
   rec_next_review_date sample_row_bare = None"
proof -
  have u: "calendar_fields \<lparr>utc_year = 2025, utc_month = 3, utc_day = 9, utc_hours = 23,
      utc_minutes = 0, utc_seconds = 0, utc_millis = 0\<rparr>"
    by (simp add: calendar_fields_def)
  have iso: "iso_date \<lparr>utc_year = 2025, utc_month = 3, utc_day = 9, utc_hours = 23,
      utc_minutes = 0, utc_seconds = 0, utc_millis = 0\<rparr> = ''2025-03-09''"
    by (simp add: iso_date_def iso_year_def pad0_def show_nat.simps digit_char_def)
  have time: "iso_time \<lparr>utc_year = 2025, utc_month = 3, utc_day = 9, utc_hours = 23,
      utc_minutes = 0, utc_seconds = 0, utc_millis = 0\<rparr> = ''23:00:00.000Z''"
    by (simp add: iso_time_def pad0_def show_nat.simps digit_char_def replicate_2)
  from review_date_is_iso_date [of sample_row "Inr None" sample_env "Some sample_member" sample_form]
    review_date_is_iso_date
      [of sample_row_bare "Inr None" sample_env "Some sample_member" sample_form_bare]
    u iso time
  show ?thesis
    by (simp add: sample_run sample_run_bare)
       (simp add: sample_form_def sample_form_bare_def sample_date_def sample_row_def
          sample_row_bare_def)
qed

text \<open>
  Claim C9. The cancel button and the close control call \<^verbatim>\<open>onOpenChange(false)\<close> and
  nothing else: on the filled sample form the state after the click is the state before
  it, with the compliance item and the selected files still there. \<^verbatim>\<open>resetForm\<close> is only
  called after a successful insert.
\<close>

theorem cancel_keeps_form_values:
  "cancelClick sample_form = (sample_form, [OnOpenChange False]) \<and>
   closeClick sample_form = (sample_form, [OnOpenChange False]) \<and>
   complianceItem (fst (cancelClick sample_form)) = ''Fire drill'' \<and>
   files (fst (closeClick sample_form)) = [sample_report, sample_photo]"
  by (simp add: cancelClick_def closeClick_def sample_form_def)

text \<open>
  Claim C10. The record handed to the insert has \<^verbatim>\<open>notes\<close> null when the notes of the form
  are the empty string, and the notes themselves otherwise.
\<close>

theorem notes_empty_is_null:
  assumes "InsertRecord row res \<in> set (snd (handleSubmit e om f))"
  shows "rec_notes row = (if notes_field f = [] then None else Some (notes_field f))"
  using assms
  by (rule handleSubmit_InsertRecordE) (simp add: newRecord_def js_or_def truthy_def)

theorem notes_empty_is_null_witness:
  "InsertRecord sample_row (Inr None) \<in>
     set (snd (handleSubmit sample_env (Some sample_member) sample_form)) \<and>
   notes_field sample_form = [] \<and> rec_notes sample_row = None \<and>
   InsertRecord sample_row_bare (Inr None) \<in>
     set (snd (handleSubmit sample_env (Some sample_member) sample_form_bare)) \<and>
   notes_field sample_form_bare = ''Annual'' \<and> rec_notes sample_row_bare = Some ''Annual''"
  using notes_empty_is_null [of sample_row "Inr None" sample_env "Some sample_member" sample_form]
    notes_empty_is_null
      [of sample_row_bare "Inr None" sample_env "Some sample_member" sample_form_bare]
  by (simp add: sample_run sample_run_bare)
     (simp add: sample_form_def sample_form_bare_def sample_row_def sample_row_bare_def)

end
